theory Spec2Isabelle
  imports Complex_Main "HOL-Library.Word" "HOL-Library.Log_Nat"
begin

unbundle bit_operations_syntax

text \<open>
  A shallow embedding of the Go package \<open>p2s\<close> of the P2S (Proposer in 2 Steps)
  consensus: the commitment scheme, the Merkle proof system, the partially hidden and the
  matching transactions, the B1 and B2 blocks, the cache, the MEV detector, the proposer
  selection and the engine.  The definitions come first, each named after the function it
  embeds (a method carries the name of its receiver where two methods share a name); the
  properties follow.  Locks are left out: every function is one critical section.
\<close>

section \<open>Bytes, hashes and big integers\<close>

text \<open>
  A Go \<open>[]byte\<close> is a list of 8-bit words; a nil slice and an empty slice are both
  \<open>[]\<close> (the code only reads their length and contents).  \<open>common.Address\<close>
  (\<open>[20]byte\<close>) and \<open>common.Hash\<close> (\<open>[32]byte\<close>) are byte lists of that length.
  \<open>uint64\<close> and \<open>int64\<close> are 64-bit words, read with \<open>unat\<close> and \<open>sint\<close>.
\<close>

type_synonym byte = "8 word"
type_synonym bytes = "byte list"
type_synonym address = bytes
type_synonym hash = bytes
type_synonym uint64 = "64 word"
type_synonym int64 = "64 word"

definition zero_hash :: hash where
  "zero_hash = replicate 32 0"

definition zero_address :: address where
  "zero_address = replicate 20 0"

definition BytesToHash :: "bytes \<Rightarrow> hash" where
  \<comment> \<open>\<open>common.BytesToHash\<close>: keep the last 32 bytes, pad on the left with zeros.\<close>
  "BytesToHash b =
     (let b' = drop (length b - 32) b in replicate (32 - length b') 0 @ b')"

subsection \<open>SHA-256 (\<open>crypto/sha256\<close>, FIPS 180-4)\<close>

definition sha256_K :: "32 word list" where
  \<comment> \<open>the first 32 bits of the fractional parts of the cube roots of the first 64 primes\<close>
  "sha256_K =
    [1116352408, 1899447441, 3049323471, 3921009573, 961987163, 1508970993,
     2453635748, 2870763221, 3624381080, 310598401, 607225278, 1426881987,
     1925078388, 2162078206, 2614888103, 3248222580, 3835390401, 4022224774,
     264347078, 604807628, 770255983, 1249150122, 1555081692, 1996064986,
     2554220882, 2821834349, 2952996808, 3210313671, 3336571891, 3584528711,
     113926993, 338241895, 666307205, 773529912, 1294757372, 1396182291,
     1695183700, 1986661051, 2177026350, 2456956037, 2730485921, 2820302411,
     3259730800, 3345764771, 3516065817, 3600352804, 4094571909, 275423344,
     430227734, 506948616, 659060556, 883997877, 958139571, 1322822218,
     1537002063, 1747873779, 1955562222, 2024104815, 2227730452, 2361852424,
     2428436474, 2756734187, 3204031479, 3329325298]"

definition sha256_init :: "32 word list" where
  \<comment> \<open>the first 32 bits of the fractional parts of the square roots of the first 8 primes\<close>
  "sha256_init =
    [1779033703, 3144134277, 1013904242, 2773480762, 1359893119, 2600822924,
     528734635, 1541459225]"

definition sha256_pad :: "bytes \<Rightarrow> bytes" where
  \<comment> \<open>a 1 bit, zeros up to 56 modulo 64, then the bit length as 64 bits, big-endian\<close>
  "sha256_pad msg =
     (let n = length msg;
          bits = (word_of_nat (8 * n) :: 64 word)
      in msg @ [0x80] @ replicate ((119 - n mod 64) mod 64) 0 @
         map (\<lambda>i. ucast (drop_bit (8 * (7 - i)) bits)) [0..<8])"

fun be_words :: "bytes \<Rightarrow> 32 word list" where
  "be_words (a # b # c # d # rest) =
     (push_bit 24 (ucast a) OR push_bit 16 (ucast b) OR push_bit 8 (ucast c) OR ucast d)
       # be_words rest"
| "be_words _ = []"

definition word_be_bytes :: "32 word \<Rightarrow> bytes" where
  "word_be_bytes w =
     [ucast (drop_bit 24 w), ucast (drop_bit 16 w), ucast (drop_bit 8 w), ucast w]"

definition sha256_s0 :: "32 word \<Rightarrow> 32 word" where
  "sha256_s0 x = word_rotr 7 x XOR word_rotr 18 x XOR drop_bit 3 x"

definition sha256_s1 :: "32 word \<Rightarrow> 32 word" where
  "sha256_s1 x = word_rotr 17 x XOR word_rotr 19 x XOR drop_bit 10 x"

definition sha256_S0 :: "32 word \<Rightarrow> 32 word" where
  "sha256_S0 x = word_rotr 2 x XOR word_rotr 13 x XOR word_rotr 22 x"

definition sha256_S1 :: "32 word \<Rightarrow> 32 word" where
  "sha256_S1 x = word_rotr 6 x XOR word_rotr 11 x XOR word_rotr 25 x"

fun sha256_schedule :: "nat \<Rightarrow> 32 word list \<Rightarrow> 32 word list" where
  \<comment> \<open>extends the 16 words of a block by \<open>k\<close> further words\<close>
  "sha256_schedule 0 w = w"
| "sha256_schedule (Suc k) w =
     (let i = length w
      in sha256_schedule k
           (w @ [sha256_s1 (w ! (i - 2)) + w ! (i - 7) + sha256_s0 (w ! (i - 15)) + w ! (i - 16)]))"

fun sha256_round :: "32 word list \<Rightarrow> 32 word \<times> 32 word \<Rightarrow> 32 word list" where
  "sha256_round [a, b, c, d, e, f, g, h] (k, w) =
     (let t1 = h + sha256_S1 e + ((e AND f) XOR (NOT e AND g)) + k + w;
          t2 = sha256_S0 a + ((a AND b) XOR (a AND c) XOR (b AND c))
      in [t1 + t2, a, b, c, d + t1, e, f, g])"
| "sha256_round s _ = s"

definition sha256_block :: "32 word list \<Rightarrow> 32 word list \<Rightarrow> 32 word list" where
  "sha256_block st blk =
     map2 (+) st (foldl sha256_round st (zip sha256_K (sha256_schedule 48 blk)))"

fun sha256_blocks :: "nat \<Rightarrow> 32 word list \<Rightarrow> 32 word list \<Rightarrow> 32 word list" where
  "sha256_blocks 0 st ws = st"
| "sha256_blocks (Suc n) st ws = sha256_blocks n (sha256_block st (take 16 ws)) (drop 16 ws)"

definition sha256 :: "bytes \<Rightarrow> bytes" where
  "sha256 msg =
     (let ws = be_words (sha256_pad msg)
      in concat (map word_be_bytes (sha256_blocks (length ws div 16) sha256_init ws)))"

subsection \<open>\<open>math/big\<close>\<close>

text \<open>
  A \<open>*big.Int\<close> is an \<open>int\<close>.  The fields of that type are set by every constructor of
  the repository, so a nil \<open>*big.Int\<close> is not modelled.
\<close>

function int_bytes :: "int \<Rightarrow> bytes" where
  \<comment> \<open>big-endian digits in base 256 of a positive number, none for 0\<close>
  "int_bytes x = (if x \<le> 0 then [] else int_bytes (x div 256) @ [word_of_int (x mod 256)])"
  by pat_completeness auto
termination
  by (relation "measure nat") auto

declare int_bytes.simps [simp del]

definition big_Bytes :: "int \<Rightarrow> bytes" where
  \<comment> \<open>\<open>(*Int).Bytes\<close>: the absolute value, big-endian, without leading zeros\<close>
  "big_Bytes x = int_bytes \<bar>x\<bar>"

definition big_SetBytes :: "bytes \<Rightarrow> int" where
  \<comment> \<open>\<open>(*Int).SetBytes\<close>: the bytes read as a big-endian unsigned number\<close>
  "big_SetBytes b = foldl (\<lambda>acc x. acc * 256 + uint x) 0 b"

function modpow :: "int \<Rightarrow> int \<Rightarrow> int \<Rightarrow> int" where
  \<comment> \<open>square and multiply, reducing modulo \<open>m\<close> at each step\<close>
  "modpow x y m =
     (if y \<le> 0 then 1 mod m
      else let h = modpow x (y div 2) m; s = (h * h) mod m
           in if even y then s else (s * x) mod m)"
  by pat_completeness auto
termination
  by (relation "measure (\<lambda>(x, y, m). nat y)") auto

declare modpow.simps [simp del]

definition big_Exp :: "int \<Rightarrow> int \<Rightarrow> int \<Rightarrow> int" where
  \<comment> \<open>\<open>(*Int).Exp(x, y, m)\<close> for an exponent \<open>y \<ge> 0\<close>, the only one the code passes
      (a value of \<open>SetBytes\<close>): \<open>x ** y mod |m|\<close>, and \<open>x ** y\<close> for \<open>m = 0\<close>\<close>
  "big_Exp x y m =
     (if m = 0 then (if y \<le> 0 then 1 else x ^ nat y) else modpow x y \<bar>m\<bar>)"

definition big_Rand :: "int \<Rightarrow> int \<Rightarrow> int" where
  \<comment> \<open>\<open>(*Int).Rand(rnd, n)\<close>: a number in \<open>[0, n)\<close>, and 0 for \<open>n \<le> 0\<close>; the draw of the
      generator is the argument \<open>r\<close>\<close>
  "big_Rand r n = (if n \<le> 0 then 0 else r mod n)"

section \<open>\<open>float64\<close>\<close>

text \<open>
  A finite \<open>float64\<close> is the real number it denotes, and every operation of the code on
  such numbers (\<open>-\<close>, \<open>+\<close>, \<open>/\<close>, the conversion \<open>float64(n)\<close> of an integer, a decimal
  constant) is the exact operation followed by \<open>float64\<close> below: IEEE 754 binary64
  rounding to nearest, ties to the even significand, with 53 bits of significand, the least
  exponent \<open>-1022\<close> and gradual underflow.  Overflow to infinity starts at \<open>2^1024\<close>, far
  above the numbers that the code computes (a sum of scores stays at or below \<open>2^53\<close>).
  Comparisons are those of the reals: the two zeros of the format compare equal, and no
  operation of the code yields NaN.
\<close>

definition float64_exponent :: "real \<Rightarrow> int" where
  \<comment> \<open>for \<open>0 < x\<close>, the \<open>e\<close> with \<open>2^e \<le> x < 2^(e+1)\<close>\<close>
  "float64_exponent x = (if 1 \<le> x then bitlen \<lfloor>x\<rfloor> - 1 else - bitlen (\<lceil>1 / x\<rceil> - 1))"

definition round_half_even :: "real \<Rightarrow> int" where
  \<comment> \<open>the nearest integer, the even one of the two when they are equally near\<close>
  "round_half_even q =
     (let f = \<lfloor>q\<rfloor>; d = q - of_int f
      in if d < 1 / 2 \<or> (d = 1 / 2 \<and> even f) then f else f + 1)"

definition float64_ulp :: "real \<Rightarrow> real" where
  \<comment> \<open>the distance between neighbouring \<open>float64\<close> numbers at the magnitude of \<open>x\<close>\<close>
  "float64_ulp x = 2 powi (max (float64_exponent \<bar>x\<bar>) (- 1022) - 52)"

definition float64 :: "real \<Rightarrow> real" where
  "float64 x =
     (if x = 0 then 0
      else of_int (round_half_even (x / float64_ulp x)) * float64_ulp x)"

section \<open>Errors\<close>

text \<open>
  Every \<open>errors.New\<close> of the package is a constructor, named after its message; the
  messages that append an index carry it.  The last three are the runtime panics of Go
  that the code can reach.
\<close>

datatype error =
    NoDataToCommit                \<comment> \<open>"no data to commit"\<close>
  | NoDataToProve                 \<comment> \<open>"no data to prove"\<close>
  | CommitmentNotFoundInTree      \<comment> \<open>"commitment not found in tree"\<close>
  | InvalidProof                  \<comment> \<open>"invalid proof"\<close>
  | PHTHashMismatch               \<comment> \<open>"PHT hash mismatch"\<close>
  | RecipientMismatch             \<comment> \<open>"recipient mismatch"\<close>
  | ValueMismatch                 \<comment> \<open>"value mismatch"\<close>
  | CallDataMismatch              \<comment> \<open>"call data mismatch"\<close>
  | TransactionTypeMismatch       \<comment> \<open>"transaction type mismatch"\<close>
  | GasLimitMismatch              \<comment> \<open>"gas limit mismatch"\<close>
  | SenderRecoveryFailed          \<comment> \<open>the error of \<open>types.Sender\<close>\<close>
  | NoValidatorsAvailable         \<comment> \<open>"no validators available"\<close>
  | NoActiveValidators            \<comment> \<open>"no active validators"\<close>
  | NoActiveValidatorsFound       \<comment> \<open>"no active validators found"\<close>
  | InsufficientMEVProtection     \<comment> \<open>"insufficient MEV protection"\<close>
  | MissingHeader                 \<comment> \<open>"missing header"\<close>
  | InvalidBlockTypeB1            \<comment> \<open>"invalid block type for B1 block"\<close>
  | NoPHTsInB1Block               \<comment> \<open>"no PHTs in B1 block"\<close>
  | NilPHTAtIndex nat             \<comment> \<open>"nil PHT at index i"\<close>
  | InvalidPHTHashAtIndex nat     \<comment> \<open>"invalid PHT hash at index i"\<close>
  | InvalidMEVScore               \<comment> \<open>"invalid MEV score"\<close>
  | MissingTimestamp              \<comment> \<open>"missing timestamp"\<close>
  | TimestampInTheFuture          \<comment> \<open>"timestamp in the future"\<close>
  | InvalidBlockTypeB2            \<comment> \<open>"invalid block type for B2 block"\<close>
  | B1BlockHashMismatch           \<comment> \<open>"B1 block hash mismatch"\<close>
  | NoMTsInB2Block                \<comment> \<open>"no MTs in B2 block"\<close>
  | MTCountMismatch               \<comment> \<open>"MT count mismatch with B1 PHTs"\<close>
  | NilMTAtIndex nat              \<comment> \<open>"nil MT at index i"\<close>
  | InvalidMTHashAtIndex nat      \<comment> \<open>"invalid MT hash at index i"\<close>
  | PHTHashMismatchAtIndex nat    \<comment> \<open>"PHT hash mismatch at index i"\<close>
  | B2TimestampNotAfterB1         \<comment> \<open>"B2 timestamp must be after B1 timestamp"\<close>
  | B1BlockNotFound               \<comment> \<open>"B1 block not found"\<close>
  | B1BlockNotFoundInCache        \<comment> \<open>"B1 block not found in cache"\<close>
  | B2BlockNotFoundInCache        \<comment> \<open>"B2 block not found in cache"\<close>
  | CorrespondingB1BlockNotFound  \<comment> \<open>"corresponding B1 block not found"\<close>
  | MTCountExceedsPHTCount        \<comment> \<open>"MT count exceeds PHT count"\<close>
  | InvalidCommitment             \<comment> \<open>"invalid commitment"\<close>
  | MissingAntiMEVNonce           \<comment> \<open>"missing anti-MEV nonce"\<close>
  | InvalidGasPrice               \<comment> \<open>"invalid gas price"\<close>
  | StakeBelowMinimum             \<comment> \<open>"stake below minimum"\<close>
  | MaximumValidatorsReached      \<comment> \<open>"maximum validators reached"\<close>
  | ValidatorNotFound             \<comment> \<open>"validator not found"\<close>
  | PanicIndexOutOfRange          \<comment> \<open>runtime panic: index out of range\<close>
  | PanicSliceBoundsOutOfRange    \<comment> \<open>runtime panic: slice bounds out of range\<close>
  | PanicNilPointerDereference    \<comment> \<open>runtime panic: nil pointer dereference\<close>

definition index :: "'a list \<Rightarrow> int \<Rightarrow> error + 'a" where
  \<comment> \<open>\<open>xs[i]\<close> on a slice: a panic outside \<open>0 \<le> i < len(xs)\<close>\<close>
  "index xs i = (if 0 \<le> i \<and> i < int (length xs) then Inr (xs ! nat i) else Inl PanicIndexOutOfRange)"

definition go_div :: "int \<Rightarrow> int \<Rightarrow> int" where
  \<comment> \<open>Go's \<open>/\<close> on integers truncates towards zero\<close>
  "go_div a b = sgn a * sgn b * (\<bar>a\<bar> div \<bar>b\<bar>)"

section \<open>The commitment scheme (\<open>PedersenCommitment\<close>)\<close>

record PedersenCommitment =
  generator :: int
  modulus :: int

definition secp256k1_P :: int where
  \<comment> \<open>\<open>crypto.S256().P\<close>, the field prime of secp256k1: \<open>2^256 - 2^32 - 977\<close>\<close>
  "secp256k1_P = 0xFFFFFFFFFFFFFFFFFFFFFFFFFFFFFFFFFFFFFFFFFFFFFFFFFFFFFFFEFFFFFC2F"

definition NewPedersenCommitment :: PedersenCommitment where
  "NewPedersenCommitment = \<lparr>generator = 2, modulus = secp256k1_P\<rparr>"

definition PedersenCommitment_Commit :: "PedersenCommitment \<Rightarrow> bytes list \<Rightarrow> error + bytes" where
  \<comment> \<open>the hasher is written field after field: it hashes the concatenation\<close>
  "PedersenCommitment_Commit p data =
     (if length data = 0 then Inl NoDataToCommit
      else let hash = sha256 (concat data);
               hashInt = big_SetBytes hash;
               commitment = big_Exp (generator p) hashInt (modulus p)
           in Inr (big_Bytes commitment))"

definition PedersenCommitment_Verify :: "PedersenCommitment \<Rightarrow> bytes \<Rightarrow> bytes list \<Rightarrow> bool" where
  "PedersenCommitment_Verify p commitment data =
     (case PedersenCommitment_Commit p data of
        Inl err \<Rightarrow> False
      | Inr newCommitment \<Rightarrow> commitment = newCommitment)"

section \<open>The proof system (\<open>MerkleProofSystem\<close>)\<close>

text \<open>
  The receiver holds only \<open>treeHeight\<close>, which no method reads, so the methods are
  functions of their arguments.  A tree is the slice of its nodes; a node that was never
  written is nil, that is \<open>[]\<close>.
\<close>

function padToPowerOfTwo_loop :: "nat \<Rightarrow> nat \<Rightarrow> nat" where
  \<comment> \<open>\<open>for nextPower < n { nextPower <<= 1 }\<close>, entered with \<open>nextPower = 1\<close>; the guard
      \<open>0 < nextPower\<close> holds throughout and makes the recursion total\<close>
  "padToPowerOfTwo_loop nextPower n =
     (if 0 < nextPower \<and> nextPower < n then padToPowerOfTwo_loop (2 * nextPower) n
      else nextPower)"
  by pat_completeness auto
termination
  by (relation "measure (\<lambda>(nextPower, n). n - nextPower)") auto

declare padToPowerOfTwo_loop.simps [simp del]

definition padToPowerOfTwo :: "bytes list \<Rightarrow> bytes list" where
  "padToPowerOfTwo data =
     (let n = length data
      in if n = 0 then data
         else let nextPower = padToPowerOfTwo_loop 1 n
              in data @ replicate (nextPower - n) (replicate 32 0))"

function buildMerkleTree_loop :: "int \<Rightarrow> int \<Rightarrow> bytes list \<Rightarrow> error + bytes list" where
  \<comment> \<open>the loop over the internal nodes; \<open>m\<close> is \<open>len(paddedData)\<close>\<close>
  "buildMerkleTree_loop m i tree =
     (if i < int (length tree) then
        (case index tree (2 * i - m) of
           Inl e \<Rightarrow> Inl e
         | Inr leftChild \<Rightarrow>
             (case index tree (2 * i - m + 1) of
                Inl e \<Rightarrow> Inl e
              | Inr rightChild \<Rightarrow>
                  buildMerkleTree_loop m (i + 1)
                    (tree[nat i := sha256 (leftChild @ rightChild)])))
      else Inr tree)"
  by pat_completeness auto
termination
  by (relation "measure (\<lambda>(m, i, tree). nat (int (length tree) - i))") auto

declare buildMerkleTree_loop.simps [simp del]

definition buildMerkleTree :: "bytes list \<Rightarrow> error + bytes list" where
  "buildMerkleTree data =
     (if length data = 0 then Inr []
      else let paddedData = padToPowerOfTwo data;
               tree = paddedData @ replicate (length paddedData - 1) []
           in buildMerkleTree_loop (int (length paddedData)) (int (length paddedData)) tree)"

fun findLeafIndex_loop :: "int \<Rightarrow> bytes list \<Rightarrow> bytes \<Rightarrow> int" where
  "findLeafIndex_loop i [] commitment = -1"
| "findLeafIndex_loop i (leaf # rest) commitment =
     (if leaf = commitment then i else findLeafIndex_loop (i + 1) rest commitment)"

definition findLeafIndex :: "bytes list \<Rightarrow> bytes \<Rightarrow> int" where
  "findLeafIndex tree commitment = findLeafIndex_loop 0 tree commitment"

function generateMerkleProof_loop :: "bytes list \<Rightarrow> int \<Rightarrow> bytes \<Rightarrow> error + bytes" where
  "generateMerkleProof_loop tree currentIndex proof =
     (if currentIndex < int (length tree) - 1 then
        (case index tree (currentIndex XOR 1) of
           Inl e \<Rightarrow> Inl e
         | Inr sibling \<Rightarrow>
             generateMerkleProof_loop tree (go_div (currentIndex + int (length tree)) 2)
               (proof @ sibling))
      else Inr proof)"
  by pat_completeness auto
termination
proof (relation "measure (\<lambda>(tree, currentIndex, proof). nat (int (length tree) - 1 - currentIndex))")
  show "wf (measure (\<lambda>(tree, currentIndex, proof). nat (int (length tree) - 1 - currentIndex)))"
    by simp
next
  fix tree :: "bytes list" and currentIndex :: int and "proof" :: bytes and x2 :: bytes
  assume lt: "currentIndex < int (length tree) - 1"
  have "currentIndex < go_div (currentIndex + int (length tree)) 2"
  proof (cases "0 \<le> currentIndex + int (length tree)")
    case True
    then have "go_div (currentIndex + int (length tree)) 2 = (currentIndex + int (length tree)) div 2"
      by (cases "currentIndex + int (length tree) = 0") (simp_all add: go_div_def)
    with lt show ?thesis by linarith
  next
    case False
    then have "go_div (currentIndex + int (length tree)) 2 = - ((- (currentIndex + int (length tree))) div 2)"
      by (simp add: go_div_def)
    with lt show ?thesis by linarith
  qed
  with lt show "((tree, go_div (currentIndex + int (length tree)) 2, proof @ x2), (tree, currentIndex, proof))
      \<in> measure (\<lambda>(tree, currentIndex, proof). nat (int (length tree) - 1 - currentIndex))"
    by simp
qed

declare generateMerkleProof_loop.simps [simp del]

definition generateMerkleProof :: "bytes list \<Rightarrow> int \<Rightarrow> error + bytes" where
  "generateMerkleProof tree leafIndex = generateMerkleProof_loop tree leafIndex []"

text \<open>
  A slice expression may reach past the length of a slice, up to its capacity, and then
  reads what the backing array holds there.  The proof is the only slice that the code
  reslices without a test of its length, so it comes with \<open>spare\<close>: the bytes of its
  backing array between its length and its capacity.
\<close>

function verifyMerkleProof_loop :: "bytes \<Rightarrow> bytes \<Rightarrow> nat \<Rightarrow> bytes \<Rightarrow> error + bytes" where
  \<comment> \<open>\<open>proof[proofIndex : proofIndex+32]\<close> panics past the capacity of the slice\<close>
  "verifyMerkleProof_loop proof spare proofIndex current =
     (if proofIndex < length proof then
        (if proofIndex + 32 \<le> length proof + length spare then
           verifyMerkleProof_loop proof spare (proofIndex + 32)
             (sha256 (current @ take 32 (drop proofIndex (proof @ spare))))
         else Inl PanicSliceBoundsOutOfRange)
      else Inr current)"
  by pat_completeness auto
termination
  by (relation "measure (\<lambda>(proof, spare, proofIndex, current). length proof - proofIndex)") auto

declare verifyMerkleProof_loop.simps [simp del]

definition verifyMerkleProof :: "bytes \<Rightarrow> bytes \<Rightarrow> bytes \<Rightarrow> bytes list \<Rightarrow> error + bool" where
  "verifyMerkleProof proof spare commitment tree =
     (if length proof = 0 then Inr False
      else case verifyMerkleProof_loop proof spare 0 commitment of
             Inl e \<Rightarrow> Inl e
           | Inr current \<Rightarrow>
               (case index tree (int (length tree) - 1) of
                  Inl e \<Rightarrow> Inl e
                | Inr treeRoot \<Rightarrow> Inr (current = treeRoot)))"

definition MerkleProofSystem_Prove :: "bytes \<Rightarrow> bytes list \<Rightarrow> error + bytes" where
  "MerkleProofSystem_Prove commitment data =
     (if length data = 0 then Inl NoDataToProve
      else case buildMerkleTree data of
             Inl e \<Rightarrow> Inl e
           | Inr tree \<Rightarrow>
               (let leafIndex = findLeafIndex tree commitment
                in if leafIndex = -1 then Inl CommitmentNotFoundInTree
                   else generateMerkleProof tree leafIndex))"

definition MerkleProofSystem_Verify ::
  "bytes \<Rightarrow> bytes \<Rightarrow> bytes \<Rightarrow> bytes list \<Rightarrow> error + bool" where
  "MerkleProofSystem_Verify proof spare commitment data =
     (if length data = 0 then Inr False
      else case buildMerkleTree data of
             Inl e \<Rightarrow> Inl e
           | Inr tree \<Rightarrow> verifyMerkleProof proof spare commitment tree)"

section \<open>Partially hidden transactions (\<open>PHTManager\<close>)\<close>

record PHTTransaction =
  pht_Sender :: address
  pht_GasPrice :: int
  pht_Commitment :: bytes
  pht_Nonce :: bytes
  pht_Timestamp :: uint64
  pht_Recipient :: address
  pht_Value :: int
  pht_CallData :: bytes
  pht_TxType :: byte
  pht_GasLimit :: uint64
  pht_TxHash :: hash

text \<open>
  What the code reads of a \<open>types.Transaction\<close>.  \<open>tx_Sender\<close> is the outcome of
  \<open>types.Sender(types.NewEIP155Signer(tx.ChainId()), tx)\<close>, \<open>None\<close> when the recovery
  fails; \<open>tx_Hash\<close> is \<open>tx.Hash()\<close>.
\<close>

record Transaction =
  tx_To :: "address option"
  tx_Value :: int
  tx_Data :: bytes
  tx_Type :: byte
  tx_Gas :: uint64
  tx_GasPrice :: int
  tx_Hash :: hash
  tx_Sender :: "address option"

definition le_bytes64 :: "uint64 \<Rightarrow> bytes" where
  \<comment> \<open>\<open>b[i] = byte(x >> (8 * i))\<close> for \<open>i\<close> from 0 to 7\<close>
  "le_bytes64 x = map (\<lambda>i. ucast (drop_bit (8 * i) x)) [0..<8]"

definition hiddenData :: "address \<Rightarrow> int \<Rightarrow> bytes \<Rightarrow> byte \<Rightarrow> uint64 \<Rightarrow> bytes list" where
  \<comment> \<open>the five hidden fields as the code lists them; \<open>byte(gasLimit)\<close> keeps the low byte\<close>
  "hiddenData recipient val callData txType gasLimit =
     [recipient, big_Bytes val, callData, [txType], [ucast gasLimit]]"

definition CreatePHT ::
  "PedersenCommitment \<Rightarrow> bytes \<Rightarrow> int64 \<Rightarrow> Transaction \<Rightarrow> error + PHTTransaction" where
  \<comment> \<open>\<open>nonce\<close> is what \<open>antiMEVNonce.Generate()\<close> returns, \<open>now\<close> is \<open>time.Now().Unix()\<close>\<close>
  "CreatePHT commitmentScheme nonce now tx =
     (case tx_Sender tx of
        None \<Rightarrow> Inl SenderRecoveryFailed
      | Some sender \<Rightarrow>
          (let recipient = (case tx_To tx of None \<Rightarrow> zero_address | Some a \<Rightarrow> a)
           in case PedersenCommitment_Commit commitmentScheme
                     (hiddenData recipient (tx_Value tx) (tx_Data tx) (tx_Type tx) (tx_Gas tx)) of
                Inl err \<Rightarrow> Inl err
              | Inr commitment \<Rightarrow>
                  Inr \<lparr>pht_Sender = sender, pht_GasPrice = tx_GasPrice tx,
                       pht_Commitment = commitment, pht_Nonce = nonce, pht_Timestamp = now,
                       pht_Recipient = recipient, pht_Value = tx_Value tx,
                       pht_CallData = tx_Data tx, pht_TxType = tx_Type tx,
                       pht_GasLimit = tx_Gas tx, pht_TxHash = tx_Hash tx\<rparr>))"

definition ValidatePHT :: "PedersenCommitment \<Rightarrow> PHTTransaction \<Rightarrow> error option" where
  "ValidatePHT commitmentScheme pht =
     (if \<not> PedersenCommitment_Verify commitmentScheme (pht_Commitment pht)
            (hiddenData (pht_Recipient pht) (pht_Value pht) (pht_CallData pht) (pht_TxType pht)
               (pht_GasLimit pht))
      then Some InvalidCommitment
      else if length (pht_Nonce pht) = 0 then Some MissingAntiMEVNonce
      else if pht_Timestamp pht = 0 then Some MissingTimestamp
      else if pht_GasPrice pht \<le> 0 then Some InvalidGasPrice
      else None)"

definition VerifyCommitment ::
  "PedersenCommitment \<Rightarrow> PHTTransaction \<Rightarrow> address \<Rightarrow> int \<Rightarrow> bytes \<Rightarrow> byte \<Rightarrow> uint64 \<Rightarrow> bool" where
  "VerifyCommitment commitmentScheme pht recipient val callData txType gasLimit =
     PedersenCommitment_Verify commitmentScheme (pht_Commitment pht)
       (hiddenData recipient val callData txType gasLimit)"

definition PHTTransaction_Hash :: "PHTTransaction \<Rightarrow> hash" where
  \<comment> \<open>the visible fields only\<close>
  "PHTTransaction_Hash pht =
     BytesToHash (sha256 (pht_Sender pht @ big_Bytes (pht_GasPrice pht) @ pht_Commitment pht @
                          pht_Nonce pht @ le_bytes64 (pht_Timestamp pht)))"

section \<open>Matching transactions (\<open>MTManager\<close>)\<close>

record MTTransaction =
  mt_Recipient :: address
  mt_Value :: int
  mt_CallData :: bytes
  mt_TxType :: byte
  mt_GasLimit :: uint64
  mt_PHTHash :: hash
  mt_Proof :: bytes
  mt_ProofSpare :: bytes  \<comment> \<open>the backing array of \<open>Proof\<close> past its length\<close>
  mt_Timestamp :: uint64
  mt_TxHash :: hash

definition MTTransaction_Hash :: "MTTransaction \<Rightarrow> hash" where
  "MTTransaction_Hash mt =
     BytesToHash (sha256 (mt_Recipient mt @ big_Bytes (mt_Value mt) @ mt_CallData mt @
                          [mt_TxType mt] @ le_bytes64 (mt_GasLimit mt) @ mt_PHTHash mt @
                          le_bytes64 (mt_Timestamp mt)))"

text \<open>
  The slices \<open>[]*PHTTransaction\<close> and \<open>[]*MTTransaction\<close> hold pointers: an element is
  \<open>None\<close> for nil, and reading a field through nil is the panic of the runtime.
\<close>

definition CreateMT :: "int64 \<Rightarrow> nat \<Rightarrow> PHTTransaction option \<Rightarrow> error + MTTransaction" where
  \<comment> \<open>\<open>now\<close> is \<open>time.Now().Unix()\<close>; \<open>spare\<close> is the capacity that the \<open>append\<close>s of
      \<open>generateMerkleProof\<close> left unused, which the runtime chooses and fills with zeros\<close>
  "CreateMT now spare phtp =
     (case phtp of
        None \<Rightarrow> Inl PanicNilPointerDereference
      | Some pht \<Rightarrow>
          (case MerkleProofSystem_Prove (pht_Commitment pht)
                  (hiddenData (pht_Recipient pht) (pht_Value pht) (pht_CallData pht)
                     (pht_TxType pht) (pht_GasLimit pht)) of
             Inl err \<Rightarrow> Inl err
           | Inr proof \<Rightarrow>
               Inr \<lparr>mt_Recipient = pht_Recipient pht, mt_Value = pht_Value pht,
                    mt_CallData = pht_CallData pht, mt_TxType = pht_TxType pht,
                    mt_GasLimit = pht_GasLimit pht, mt_PHTHash = PHTTransaction_Hash pht,
                    mt_Proof = proof, mt_ProofSpare = replicate spare 0, mt_Timestamp = now,
                    mt_TxHash = pht_TxHash pht\<rparr>))"


section \<open>Blocks\<close>

text \<open>
  Of a \<open>types.Header\<close> the code reads the parent hash, the extra data and \<open>Hash()\<close>;
  \<open>hdr_Hash\<close> is the value of \<open>Hash()\<close>.
\<close>

record Header =
  hdr_ParentHash :: hash
  hdr_Extra :: bytes
  hdr_Hash :: hash

record B1Block =
  b1_Header :: "Header option"
  b1_PHTs :: "PHTTransaction option list"
  b1_BlockType :: byte
  b1_MEVScore :: real
  b1_DetectedAttacks :: "string list"
  b1_ValidatorSig :: bytes
  b1_Timestamp :: uint64
  b1_BlockHash :: hash

record B2Block =
  b2_Header :: "Header option"
  b2_MTs :: "MTTransaction option list"
  b2_BlockType :: byte
  b2_B1BlockHash :: hash
  b2_ValidatorSig :: bytes
  b2_Timestamp :: uint64
  b2_BlockHash :: hash

fun B1Block_Validate_loop :: "nat \<Rightarrow> PHTTransaction option list \<Rightarrow> error option" where
  "B1Block_Validate_loop i [] = None"
| "B1Block_Validate_loop i (phtp # rest) =
     (case phtp of
        None \<Rightarrow> Some (NilPHTAtIndex i)
      | Some pht \<Rightarrow>
          if PHTTransaction_Hash pht = zero_hash then Some (InvalidPHTHashAtIndex i)
          else B1Block_Validate_loop (Suc i) rest)"

definition B1Block_Validate :: "int64 \<Rightarrow> B1Block \<Rightarrow> error option" where
  \<comment> \<open>\<open>now\<close> is \<open>time.Now().Unix()\<close>; \<open>uint64(now + 60)\<close> keeps the bits of the \<open>int64\<close>\<close>
  "B1Block_Validate now b =
     (if b1_Header b = None then Some MissingHeader
      else if b1_BlockType b \<noteq> 1 then Some InvalidBlockTypeB1
      else if length (b1_PHTs b) = 0 then Some NoPHTsInB1Block
      else case B1Block_Validate_loop 0 (b1_PHTs b) of
             Some err \<Rightarrow> Some err
           | None \<Rightarrow>
               if b1_MEVScore b < 0 \<or> b1_MEVScore b > 1 then Some InvalidMEVScore
               else if b1_Timestamp b = 0 then Some MissingTimestamp
               else if b1_Timestamp b > now + 60 then Some TimestampInTheFuture
               else None)"

fun B2Block_Validate_loop ::
  "nat \<Rightarrow> MTTransaction option list \<Rightarrow> PHTTransaction option list \<Rightarrow> error option" where
  "B2Block_Validate_loop i [] phts = None"
| "B2Block_Validate_loop i (mtp # rest) phts =
     (case mtp of
        None \<Rightarrow> Some (NilMTAtIndex i)
      | Some mt \<Rightarrow>
          (case index phts (int i) of
             Inl e \<Rightarrow> Some e
           | Inr None \<Rightarrow> Some (NilPHTAtIndex i)
           | Inr (Some pht) \<Rightarrow>
               if MTTransaction_Hash mt = zero_hash then Some (InvalidMTHashAtIndex i)
               else if mt_PHTHash mt \<noteq> PHTTransaction_Hash pht then Some (PHTHashMismatchAtIndex i)
               else B2Block_Validate_loop (Suc i) rest phts))"

definition B2Block_Validate :: "int64 \<Rightarrow> B2Block \<Rightarrow> B1Block \<Rightarrow> error option" where
  "B2Block_Validate now b b1Block =
     (if b2_Header b = None then Some MissingHeader
      else if b2_BlockType b \<noteq> 2 then Some InvalidBlockTypeB2
      else if b2_B1BlockHash b \<noteq> b1_BlockHash b1Block then Some B1BlockHashMismatch
      else if length (b2_MTs b) = 0 then Some NoMTsInB2Block
      else if length (b2_MTs b) \<noteq> length (b1_PHTs b1Block) then Some MTCountMismatch
      else case B2Block_Validate_loop 0 (b2_MTs b) (b1_PHTs b1Block) of
             Some err \<Rightarrow> Some err
           | None \<Rightarrow>
               if b2_Timestamp b = 0 then Some MissingTimestamp
               else if b2_Timestamp b > now + 60 then Some TimestampInTheFuture
               else if b2_Timestamp b \<le> b1_Timestamp b1Block then Some B2TimestampNotAfterB1
               else None)"

section \<open>The cache (\<open>P2SCache\<close>)\<close>

text \<open>
  A Go map is the list of its entries, without repeated keys, in the order in which a
  \<open>range\<close> over it visits them.  The runtime chooses that order; the properties below
  hold for every list, hence for every order.  The cached pointers are not nil.

  The maps hold pointers; the model holds the values they point to.  \<open>SetB1Block\<close> and
  \<open>SetB2Block\<close> write \<open>BlockHash\<close> through the pointer they are given before they
  store it, and the model stores the block with that field written.  This is the view of
  a caller that caches each block object under one key, as \<open>prepareB1Block\<close> and
  \<open>finalizeB2Block\<close> do with the block they have just allocated.  A block object that
  is cached a second time under another key carries the later hash under both keys in the
  code; the model does not follow that sharing, and no property below caches an object
  twice.
\<close>

fun map_store :: "'k \<Rightarrow> 'v \<Rightarrow> ('k \<times> 'v) list \<Rightarrow> ('k \<times> 'v) list" where
  \<comment> \<open>\<open>m[k] = v\<close>\<close>
  "map_store k v [] = [(k, v)]"
| "map_store k v ((k', v') # rest) =
     (if k' = k then (k, v) # rest else (k', v') # map_store k v rest)"

definition map_delete :: "'k \<Rightarrow> ('k \<times> 'v) list \<Rightarrow> ('k \<times> 'v) list" where
  \<comment> \<open>\<open>delete(m, k)\<close>\<close>
  "map_delete k m = filter (\<lambda>(k', v). k' \<noteq> k) m"

record P2SCache =
  b1Blocks :: "(hash \<times> B1Block) list"
  b2Blocks :: "(hash \<times> B2Block) list"
  phtCache :: "(hash \<times> PHTTransaction) list"
  mtCache :: "(hash \<times> MTTransaction) list"
  commitmentCache :: "(string \<times> bytes) list"
  maxSize :: int

definition NewP2SCache :: P2SCache where
  "NewP2SCache = \<lparr>b1Blocks = [], b2Blocks = [], phtCache = [], mtCache = [],
                   commitmentCache = [], maxSize = 1000\<rparr>"

fun evictOldest_scan :: "('v \<Rightarrow> uint64) \<Rightarrow> (hash \<times> 'v) list \<Rightarrow> hash \<Rightarrow> uint64 \<Rightarrow> hash" where
  \<comment> \<open>the scan of the four \<open>evictOldest...\<close> methods, which differ only in the map they
      read; \<open>ts\<close> reads the \<open>Timestamp\<close> field\<close>
  "evictOldest_scan ts [] oldestHash oldestTime = oldestHash"
| "evictOldest_scan ts ((h, x) # rest) oldestHash oldestTime =
     (if ts x < oldestTime then evictOldest_scan ts rest h (ts x)
      else evictOldest_scan ts rest oldestHash oldestTime)"

definition evictOldestB1Block :: "P2SCache \<Rightarrow> P2SCache" where
  "evictOldestB1Block c =
     c\<lparr>b1Blocks := map_delete (evictOldest_scan b1_Timestamp (b1Blocks c) zero_hash (- 1))
                      (b1Blocks c)\<rparr>"

definition evictOldestB2Block :: "P2SCache \<Rightarrow> P2SCache" where
  "evictOldestB2Block c =
     c\<lparr>b2Blocks := map_delete (evictOldest_scan b2_Timestamp (b2Blocks c) zero_hash (- 1))
                      (b2Blocks c)\<rparr>"

definition evictOldestPHT :: "P2SCache \<Rightarrow> P2SCache" where
  \<comment> \<open>\<open>oldestHash\<close> starts as the zero hash, \<open>oldestTime\<close> as \<open>^uint64(0)\<close>\<close>
  "evictOldestPHT c =
     c\<lparr>phtCache := map_delete (evictOldest_scan pht_Timestamp (phtCache c) zero_hash (- 1))
                      (phtCache c)\<rparr>"

definition evictOldestMT :: "P2SCache \<Rightarrow> P2SCache" where
  "evictOldestMT c =
     c\<lparr>mtCache := map_delete (evictOldest_scan mt_Timestamp (mtCache c) zero_hash (- 1))
                     (mtCache c)\<rparr>"

definition SetB1Block :: "hash \<Rightarrow> B1Block \<Rightarrow> P2SCache \<Rightarrow> P2SCache" where
  "SetB1Block h block c =
     (let c' = (if int (length (b1Blocks c)) \<ge> maxSize c then evictOldestB1Block c else c)
      in c'\<lparr>b1Blocks := map_store h (block\<lparr>b1_BlockHash := h\<rparr>) (b1Blocks c')\<rparr>)"

definition GetB1Block :: "hash \<Rightarrow> P2SCache \<Rightarrow> B1Block option" where
  "GetB1Block h c = map_of (b1Blocks c) h"

definition SetB2Block :: "hash \<Rightarrow> B2Block \<Rightarrow> P2SCache \<Rightarrow> P2SCache" where
  "SetB2Block h block c =
     (let c' = (if int (length (b2Blocks c)) \<ge> maxSize c then evictOldestB2Block c else c)
      in c'\<lparr>b2Blocks := map_store h (block\<lparr>b2_BlockHash := h\<rparr>) (b2Blocks c')\<rparr>)"


definition SetPHT :: "hash \<Rightarrow> PHTTransaction \<Rightarrow> P2SCache \<Rightarrow> P2SCache" where
  "SetPHT h pht c =
     (let c' = (if int (length (phtCache c)) \<ge> maxSize c then evictOldestPHT c else c)
      in c'\<lparr>phtCache := map_store h pht (phtCache c')\<rparr>)"

definition GetPHT :: "hash \<Rightarrow> P2SCache \<Rightarrow> PHTTransaction option" where
  "GetPHT h c = map_of (phtCache c) h"

definition SetMT :: "hash \<Rightarrow> MTTransaction \<Rightarrow> P2SCache \<Rightarrow> P2SCache" where
  "SetMT h mt c =
     (let c' = (if int (length (mtCache c)) \<ge> maxSize c then evictOldestMT c else c)
      in c'\<lparr>mtCache := map_store h mt (mtCache c')\<rparr>)"

definition GetMT :: "hash \<Rightarrow> P2SCache \<Rightarrow> MTTransaction option" where
  "GetMT h c = map_of (mtCache c) h"

fun SetPHT_all :: "(hash \<times> PHTTransaction) list \<Rightarrow> P2SCache \<Rightarrow> P2SCache" where
  \<comment> \<open>a sequence of \<open>SetPHT\<close> calls, in the order of the list\<close>
  "SetPHT_all [] c = c"
| "SetPHT_all ((h, pht) # rest) c = SetPHT_all rest (SetPHT h pht c)"

section \<open>The MEV detector (\<open>MEVDetector\<close>)\<close>

definition hex_digit :: "nat \<Rightarrow> char" where
  "hex_digit n = ''0123456789abcdef'' ! n"

definition Bytes2Hex :: "bytes \<Rightarrow> string" where
  \<comment> \<open>\<open>common.Bytes2Hex\<close> is \<open>hex.EncodeToString\<close>: two lower-case digits for each byte
      and no prefix\<close>
  "Bytes2Hex b = concat (map (\<lambda>x. [hex_digit (unat x div 16), hex_digit (unat x mod 16)]) b)"

definition hasDEXFunctionSignature :: "bytes \<Rightarrow> bool" where
  "hasDEXFunctionSignature callData =
     (if length callData < 4 then False
      else Bytes2Hex (take 4 callData) \<in>
             set [''0x38ed1739'', ''0x7ff36ab5'', ''0x18cbafe5'', ''0xfb3bdb41'', ''0x8803dbee'',
                  ''0x4a25d94a''])"

definition hasFrontRunPattern :: "bytes \<Rightarrow> bool" where
  "hasFrontRunPattern callData =
     (if length callData < 4 then False
      else Bytes2Hex (take 4 callData) \<in>
             set [''0xa9059cbb'', ''0x23b872dd'', ''0x095ea7b3'', ''0x40c10f19'', ''0x42966c68''])"

definition hasArbitrageFunctionSignature :: "bytes \<Rightarrow> bool" where
  "hasArbitrageFunctionSignature callData =
     (if length callData < 4 then False
      else Bytes2Hex (take 4 callData) \<in>
             set [''0x6a627842'', ''0x79cc6790'', ''0x18160ddd'', ''0x70a08231''])"

definition hasLiquidationFunctionSignature :: "bytes \<Rightarrow> bool" where
  "hasLiquidationFunctionSignature callData =
     (if length callData < 4 then False
      else Bytes2Hex (take 4 callData) \<in>
             set [''0x42842e0e'', ''0xb88d4fde'', ''0x23b872dd'', ''0xa9059cbb''])"

definition isKnownArbitrageContract :: "address \<Rightarrow> bool" where
  \<comment> \<open>Uniswap V2 router, SushiSwap router, Uniswap V3 router\<close>
  "isKnownArbitrageContract a =
     (a \<in> set [[0x7a, 0x25, 0x0d, 0x56, 0x30, 0xb4, 0xcf, 0x53, 0x97, 0x39, 0xdf, 0x2c, 0x5d,
                0xac, 0xb4, 0xc6, 0x59, 0xf2, 0x48, 0x8d],
               [0x1b, 0x02, 0xda, 0x8c, 0xb0, 0xd0, 0x97, 0xeb, 0x8d, 0x57, 0xa1, 0x75, 0xb8,
                0x8c, 0x7d, 0x8b, 0x47, 0x99, 0x75, 0x06],
               [0xe5, 0x92, 0x42, 0x7a, 0x0a, 0xec, 0xe9, 0x2d, 0xe3, 0xed, 0xee, 0x1f, 0x18,
                0xe0, 0x15, 0x7c, 0x05, 0x86, 0x15, 0x64]])"

definition isKnownLiquidationContract :: "address \<Rightarrow> bool" where
  \<comment> \<open>Aave lending pool, Aave lending pool V2, Compound cETH\<close>
  "isKnownLiquidationContract a =
     (a \<in> set [[0x3e, 0xd3, 0xb4, 0x7d, 0xd1, 0x3e, 0xc9, 0xa9, 0x8b, 0x44, 0xe6, 0x20, 0x4a,
                0x52, 0x3e, 0x76, 0x6b, 0x22, 0x58, 0x11],
               [0x7d, 0x27, 0x68, 0xde, 0x32, 0xb0, 0xb8, 0x0b, 0x7a, 0x34, 0x54, 0xc0, 0x6b,
                0xda, 0xc9, 0x4a, 0x69, 0xdd, 0xc7, 0xa9],
               [0x39, 0x8e, 0xc7, 0x34, 0x6d, 0xcd, 0x62, 0x2e, 0xdc, 0x5a, 0xe8, 0x23, 0x52,
                0xf0, 0x2b, 0xe9, 0x4c, 0x62, 0xd1, 0x19]])"

definition isSandwichPattern :: "PHTTransaction \<Rightarrow> bool" where
  "isSandwichPattern pht =
     (if pht_GasPrice pht > 10000000000 then True
      else if pht_Value pht > 1000000000000000000 then True
      else if length (pht_CallData pht) > 0 \<and> hasDEXFunctionSignature (pht_CallData pht) then True
      else False)"

definition isFrontRunPattern :: "PHTTransaction \<Rightarrow> bool" where
  "isFrontRunPattern pht =
     (if pht_GasPrice pht > 50000000000 then True
      else if length (pht_CallData pht) > 0 \<and> hasFrontRunPattern (pht_CallData pht) then True
      else False)"

definition isArbitragePattern :: "PHTTransaction \<Rightarrow> bool" where
  "isArbitragePattern pht =
     (if length (pht_CallData pht) > 0 \<and> hasArbitrageFunctionSignature (pht_CallData pht) then True
      else if isKnownArbitrageContract (pht_Recipient pht) then True
      else False)"

definition isLiquidationPattern :: "PHTTransaction \<Rightarrow> bool" where
  "isLiquidationPattern pht =
     (if length (pht_CallData pht) > 0 \<and> hasLiquidationFunctionSignature (pht_CallData pht) then True
      else if isKnownLiquidationContract (pht_Recipient pht) then True
      else False)"

definition isHighValuePattern :: "PHTTransaction \<Rightarrow> bool" where
  \<comment> \<open>the bound is written \<open>big.NewInt(10000000000000000000)\<close>, a constant beyond
      \<open>int64\<close> that the compiler refuses; the comparison is made with the number written\<close>
  "isHighValuePattern pht = (pht_Value pht > 10000000000000000000)"

definition isContractInteractionPattern :: "PHTTransaction \<Rightarrow> bool" where
  "isContractInteractionPattern pht = (length (pht_CallData pht) > 0)"

definition analyzeTransaction :: "PHTTransaction \<Rightarrow> real \<times> string list" where
  \<comment> \<open>each \<open>score -= c\<close> rounds the constant and then the difference\<close>
  "analyzeTransaction pht =
     (let (score, attacks) = (1, []);
          (score, attacks) = (if isSandwichPattern pht
                              then (float64 (score - float64 (3 / 10)), attacks @ [''sandwich_attack''])
                              else (score, attacks));
          (score, attacks) = (if isFrontRunPattern pht
                              then (float64 (score - float64 (2 / 10)), attacks @ [''front_running''])
                              else (score, attacks));
          (score, attacks) = (if isArbitragePattern pht
                              then (float64 (score - float64 (1 / 10)), attacks @ [''arbitrage''])
                              else (score, attacks));
          (score, attacks) = (if isLiquidationPattern pht
                              then (float64 (score - float64 (25 / 100)), attacks @ [''liquidation''])
                              else (score, attacks));
          score = (if isHighValuePattern pht then float64 (score - float64 (15 / 100)) else score);
          score = (if isContractInteractionPattern pht then float64 (score - float64 (1 / 10))
                   else score);
          score = (if score < 0 then 0 else score);
          score = (if score > 1 then 1 else score)
      in (score, attacks))"

fun removeDuplicateAttacks_loop :: "string list \<Rightarrow> string list \<Rightarrow> string list \<Rightarrow> string list" where
  \<comment> \<open>\<open>seen\<close> holds the keys of the map of the same name\<close>
  "removeDuplicateAttacks_loop [] seen result = result"
| "removeDuplicateAttacks_loop (attack # rest) seen result =
     (if attack \<notin> set seen then removeDuplicateAttacks_loop rest (attack # seen) (result @ [attack])
      else removeDuplicateAttacks_loop rest seen result)"

definition removeDuplicateAttacks :: "string list \<Rightarrow> string list" where
  "removeDuplicateAttacks attacks = removeDuplicateAttacks_loop attacks [] []"

fun DetectMEV_loop :: "PHTTransaction list \<Rightarrow> real \<Rightarrow> string list \<Rightarrow> real \<times> string list" where
  \<comment> \<open>\<open>totalScore += score\<close> rounds the sum\<close>
  "DetectMEV_loop [] totalScore detectedAttacks = (totalScore, detectedAttacks)"
| "DetectMEV_loop (pht # rest) totalScore detectedAttacks =
     (let (score, attacks) = analyzeTransaction pht
      in DetectMEV_loop rest (float64 (totalScore + score)) (detectedAttacks @ attacks))"

definition DetectMEV :: "PHTTransaction list \<Rightarrow> real \<times> string list" where
  \<comment> \<open>the batch holds no nil pointer: reading one would panic\<close>
  "DetectMEV phts =
     (if length phts = 0 then (1, [])
      else let (totalScore, detectedAttacks) = DetectMEV_loop phts 0 [];
               avgScore = float64 (totalScore / float64 (real (length phts)));
               uniqueAttacks = removeDuplicateAttacks detectedAttacks
           in (avgScore, uniqueAttacks))"

section \<open>Validators (\<open>ValidatorManager\<close>, \<open>WeightedRandomSelection\<close>)\<close>

record P2SConfig =
  cfg_B1BlockTime :: int
  cfg_B2BlockTime :: int
  cfg_MinMEVScore :: real
  cfg_MaxMEVScore :: real
  cfg_MinStake :: int
  cfg_MaxValidators :: int
  cfg_CommitmentScheme :: string
  cfg_ProofSystem :: string

definition DefaultP2SConfig :: P2SConfig where
  \<comment> \<open>the durations are in nanoseconds, as \<open>time.Duration\<close> counts them\<close>
  "DefaultP2SConfig =
     \<lparr>cfg_B1BlockTime = 6000000000, cfg_B2BlockTime = 6000000000,
      cfg_MinMEVScore = float64 (7 / 10), cfg_MaxMEVScore = 1,
      cfg_MinStake = 1000000000000000000, cfg_MaxValidators = 100,
      cfg_CommitmentScheme = ''pedersen'', cfg_ProofSystem = ''merkle''\<rparr>"

record Validator =
  v_Address :: address
  v_Stake :: int
  v_Reputation :: int64
  v_IsActive :: bool
  v_LastBlock :: uint64
  v_CreatedAt :: uint64
  v_UpdatedAt :: uint64

definition weight :: "Validator \<Rightarrow> int" where
  \<comment> \<open>\<open>validator.Reputation + 100\<close> is an \<open>int64\<close> sum; the product is a \<open>big.Int\<close>\<close>
  "weight validator =
     (let reputationFactor = sint (v_Reputation validator + 100)
      in v_Stake validator * reputationFactor)"

fun SelectProposer_totalWeight :: "(address \<times> Validator) list \<Rightarrow> int \<Rightarrow> int" where
  "SelectProposer_totalWeight [] totalWeight = totalWeight"
| "SelectProposer_totalWeight ((a, validator) # rest) totalWeight =
     (if v_IsActive validator
      then SelectProposer_totalWeight rest (totalWeight + weight validator)
      else SelectProposer_totalWeight rest totalWeight)"

fun SelectProposer_pick :: "(address \<times> Validator) list \<Rightarrow> int \<Rightarrow> int \<Rightarrow> address option" where
  "SelectProposer_pick [] currentWeight randomWeight = None"
| "SelectProposer_pick ((a, validator) # rest) currentWeight randomWeight =
     (if v_IsActive validator
      then (let currentWeight = currentWeight + weight validator
            in if currentWeight \<ge> randomWeight then Some a
               else SelectProposer_pick rest currentWeight randomWeight)
      else SelectProposer_pick rest currentWeight randomWeight)"

fun SelectProposer_fallback :: "(address \<times> Validator) list \<Rightarrow> address option" where
  "SelectProposer_fallback [] = None"
| "SelectProposer_fallback ((a, validator) # rest) =
     (if v_IsActive validator then Some a else SelectProposer_fallback rest)"

definition SelectProposer ::
  "(address \<times> Validator) list \<Rightarrow> (address \<times> Validator) list \<Rightarrow> (address \<times> Validator) list \<Rightarrow>
     int \<Rightarrow> error + address" where
  \<comment> \<open>the method ranges over the map three times; \<open>validators\<close>, \<open>visit2\<close> and \<open>visit3\<close>
      are the entries of the map in the order of the first, second and third loop, and
      \<open>r\<close> is the draw of the random generator.  The block number is not read.\<close>
  "SelectProposer validators visit2 visit3 r =
     (if length validators = 0 then Inl NoValidatorsAvailable
      else let totalWeight = SelectProposer_totalWeight validators 0
           in if totalWeight = 0 then Inl NoActiveValidators
              else let randomWeight = big_Rand r totalWeight
                   in case SelectProposer_pick visit2 0 randomWeight of
                        Some a \<Rightarrow> Inr a
                      | None \<Rightarrow>
                          (case SelectProposer_fallback visit3 of
                             Some a \<Rightarrow> Inr a
                           | None \<Rightarrow> Inl NoActiveValidatorsFound))"

record ValidatorManager =
  vm_validators :: "(address \<times> Validator) list"
  vm_config :: P2SConfig

definition NewValidatorManager :: "P2SConfig \<Rightarrow> ValidatorManager" where
  "NewValidatorManager config = \<lparr>vm_validators = [], vm_config = config\<rparr>"

definition AddValidator ::
  "int64 \<Rightarrow> address \<Rightarrow> int \<Rightarrow> ValidatorManager \<Rightarrow> error option \<times> ValidatorManager" where
  "AddValidator now a stake v =
     (if stake < cfg_MinStake (vm_config v) then (Some StakeBelowMinimum, v)
      else if int (length (vm_validators v)) \<ge> cfg_MaxValidators (vm_config v)
      then (Some MaximumValidatorsReached, v)
      else (None,
            v\<lparr>vm_validators :=
                 map_store a \<lparr>v_Address = a, v_Stake = stake, v_Reputation = 100,
                               v_IsActive = True, v_LastBlock = 0, v_CreatedAt = now,
                               v_UpdatedAt = now\<rparr>
                   (vm_validators v)\<rparr>))"

definition UpdateReputation :: "int64 \<Rightarrow> address \<Rightarrow> int64 \<Rightarrow> ValidatorManager \<Rightarrow> ValidatorManager" where
  \<comment> \<open>\<open>validator.Reputation += score\<close> on \<open>int64\<close>, then the two caps, compared as signed\<close>
  "UpdateReputation now a score v =
     (case map_of (vm_validators v) a of
        None \<Rightarrow> v
      | Some validator \<Rightarrow>
          (let rep = v_Reputation validator + score;
               rep = (if sint rep > 1000 then 1000 else rep);
               rep = (if sint rep < - 1000 then - 1000 else rep)
           in v\<lparr>vm_validators :=
                   map_store a (validator\<lparr>v_Reputation := rep, v_UpdatedAt := now\<rparr>)
                     (vm_validators v)\<rparr>))"

definition ValidatorManager_SelectProposer ::
  "(address \<times> Validator) list \<Rightarrow> (address \<times> Validator) list \<Rightarrow> int \<Rightarrow> ValidatorManager \<Rightarrow>
     error + address" where
  "ValidatorManager_SelectProposer visit2 visit3 r v = SelectProposer (vm_validators v) visit2 visit3 r"

section \<open>The consensus engine (\<open>P2SConsensus\<close>)\<close>

record P2SConsensus =
  p2s_config :: P2SConfig
  p2s_cache :: P2SCache
  p2s_validatorMgr :: ValidatorManager

definition NewP2SConsensus :: "P2SConfig \<Rightarrow> P2SConsensus" where
  "NewP2SConsensus config =
     \<lparr>p2s_config = config, p2s_cache = NewP2SCache, p2s_validatorMgr = NewValidatorManager config\<rparr>"

text \<open>
  What a call reads from outside: \<open>env_now\<close> is \<open>time.Now().Unix()\<close>, one value for the
  whole call, \<open>env_nonce k\<close> is the anti-MEV nonce generated for the \<open>k\<close>-th
  transaction of the batch, and \<open>env_proofSpare k\<close> is the spare capacity of the proof
  built for the \<open>k\<close>-th transaction.
\<close>

record Env =
  env_now :: int64
  env_nonce :: "nat \<Rightarrow> bytes"
  env_proofSpare :: "nat \<Rightarrow> nat"

definition getPendingTransactions :: "Transaction list" where
  \<comment> \<open>"For now, return empty slice"\<close>
  "getPendingTransactions = []"

fun convertToPHTs_loop ::
  "Env \<Rightarrow> nat \<Rightarrow> Transaction list \<Rightarrow> PHTTransaction list \<Rightarrow> error + PHTTransaction list" where
  "convertToPHTs_loop env k [] phts = Inr phts"
| "convertToPHTs_loop env k (tx # rest) phts =
     (case CreatePHT NewPedersenCommitment (env_nonce env k) (env_now env) tx of
        Inl err \<Rightarrow> Inl err
      | Inr pht \<Rightarrow> convertToPHTs_loop env (Suc k) rest (phts @ [pht]))"

definition convertToPHTs :: "Env \<Rightarrow> Transaction list \<Rightarrow> error + PHTTransaction list" where
  "convertToPHTs env txs = convertToPHTs_loop env 0 txs []"

fun convertPHTsToMTs_loop ::
  "Env \<Rightarrow> nat \<Rightarrow> PHTTransaction option list \<Rightarrow> MTTransaction option list \<Rightarrow>
     error + MTTransaction option list" where
  "convertPHTsToMTs_loop env k [] mts = Inr mts"
| "convertPHTsToMTs_loop env k (pht # rest) mts =
     (case CreateMT (env_now env) (env_proofSpare env k) pht of
        Inl err \<Rightarrow> Inl err
      | Inr mt \<Rightarrow> convertPHTsToMTs_loop env (Suc k) rest (mts @ [Some mt]))"

definition convertPHTsToMTs ::
  "Env \<Rightarrow> PHTTransaction option list \<Rightarrow> error + MTTransaction option list" where
  "convertPHTsToMTs env phts = convertPHTsToMTs_loop env 0 phts []"

definition prepareB1Block_of ::
  "Env \<Rightarrow> Transaction list \<Rightarrow> Header \<Rightarrow> P2SConsensus \<Rightarrow> error option \<times> P2SConsensus" where
  \<comment> \<open>the body of \<open>prepareB1Block\<close> after \<open>pendingTxs\<close> has been fetched; the result is
      the returned error and the engine after the call\<close>
  "prepareB1Block_of env pendingTxs header p =
     (case convertToPHTs env pendingTxs of
        Inl err \<Rightarrow> (Some err, p)
      | Inr phts \<Rightarrow>
          (let (mevScore, attacks) = DetectMEV phts
           in if mevScore < cfg_MinMEVScore (p2s_config p) then (Some InsufficientMEVProtection, p)
              else let b1Block =
                         \<lparr>b1_Header = Some header, b1_PHTs = map Some phts, b1_BlockType = 1,
                          b1_MEVScore = mevScore, b1_DetectedAttacks = attacks,
                          b1_ValidatorSig = [], b1_Timestamp = env_now env,
                          b1_BlockHash = zero_hash\<rparr>
                   in case B1Block_Validate (env_now env) b1Block of
                        Some err \<Rightarrow> (Some err, p)
                      | None \<Rightarrow>
                          (None, p\<lparr>p2s_cache := SetB1Block (hdr_Hash header) b1Block (p2s_cache p)\<rparr>)))"

definition prepareB1Block :: "Env \<Rightarrow> Header \<Rightarrow> P2SConsensus \<Rightarrow> error option \<times> P2SConsensus" where
  "prepareB1Block env header p = prepareB1Block_of env getPendingTransactions header p"

definition finalizeB2Block :: "Env \<Rightarrow> Header \<Rightarrow> P2SConsensus \<Rightarrow> error option \<times> P2SConsensus" where
  "finalizeB2Block env header p =
     (case GetB1Block (hdr_ParentHash header) (p2s_cache p) of
        None \<Rightarrow> (Some B1BlockNotFound, p)
      | Some b1Block \<Rightarrow>
          (case convertPHTsToMTs env (b1_PHTs b1Block) of
             Inl err \<Rightarrow> (Some err, p)
           | Inr mts \<Rightarrow>
               (case b1_Header b1Block of
                  None \<Rightarrow> (Some PanicNilPointerDereference, p)
                | Some b1Header \<Rightarrow>
                    (let b2Block =
                           \<lparr>b2_Header = Some header, b2_MTs = mts, b2_BlockType = 2,
                            b2_B1BlockHash = hdr_Hash b1Header, b2_ValidatorSig = [],
                            b2_Timestamp = env_now env, b2_BlockHash = zero_hash\<rparr>
                     in case B2Block_Validate (env_now env) b2Block b1Block of
                          Some err \<Rightarrow> (Some err, p)
                        | None \<Rightarrow>
                            (None,
                             p\<lparr>p2s_cache := SetB2Block (hdr_Hash header) b2Block (p2s_cache p)\<rparr>)))))"

fun validateB1Block_loop :: "PHTTransaction option list \<Rightarrow> error option" where
  "validateB1Block_loop [] = None"
| "validateB1Block_loop (phtp # rest) =
     (case phtp of
        None \<Rightarrow> Some PanicNilPointerDereference
      | Some pht \<Rightarrow>
          (case ValidatePHT NewPedersenCommitment pht of
             Some err \<Rightarrow> Some err
           | None \<Rightarrow> validateB1Block_loop rest))"

definition validateB1Block :: "hash \<Rightarrow> P2SConsensus \<Rightarrow> error option" where
  \<comment> \<open>the argument is \<open>block.Hash()\<close>\<close>
  "validateB1Block blockHash p =
     (case GetB1Block blockHash (p2s_cache p) of
        None \<Rightarrow> Some B1BlockNotFoundInCache
      | Some b1Block \<Rightarrow>
          (case validateB1Block_loop (b1_PHTs b1Block) of
             Some err \<Rightarrow> Some err
           | None \<Rightarrow>
               if b1_MEVScore b1Block < cfg_MinMEVScore (p2s_config p)
               then Some InsufficientMEVProtection else None))"



section \<open>The data of the examples\<close>

text \<open>
  The values below are the inputs at which the theorems are instantiated: an environment,
  a header, a transaction with a gas price of 60 gwei sent to the Uniswap V2 router, and a
  committed transaction with a gas price of 20 gwei, a small value and no call data.
\<close>

definition example_env :: Env where
  "example_env = \<lparr>env_now = 1700000000, env_nonce = (\<lambda>k. replicate 32 7),
                   env_proofSpare = (\<lambda>k. 0)\<rparr>"

definition example_header :: Header where
  "example_header = \<lparr>hdr_ParentHash = replicate 32 2, hdr_Extra = [1], hdr_Hash = replicate 32 3\<rparr>"

definition example_risky_tx :: Transaction where
  "example_risky_tx =
     \<lparr>tx_To = Some [0x7a, 0x25, 0x0d, 0x56, 0x30, 0xb4, 0xcf, 0x53, 0x97, 0x39, 0xdf, 0x2c,
                     0x5d, 0xac, 0xb4, 0xc6, 0x59, 0xf2, 0x48, 0x8d],
      tx_Value = 1000, tx_Data = [], tx_Type = 0, tx_Gas = 21000,
      tx_GasPrice = 60000000000, tx_Hash = replicate 32 9, tx_Sender = Some (replicate 20 5)\<rparr>"


text \<open>
  A committed transaction that hides a transfer of 258 wei without call data; its
  commitment is the one that \<open>Commit\<close> computes from its hidden fields.
\<close>

definition example_committed_pht :: PHTTransaction where
  "example_committed_pht =
     \<lparr>pht_Sender = replicate 20 5, pht_GasPrice = 1000000000,
      pht_Commitment =
        big_Bytes (big_Exp 2 (big_SetBytes (sha256 (concat (hiddenData zero_address 258 [] 0 21000))))
                     secp256k1_P),
      pht_Nonce = [110, 111, 110, 99, 101], pht_Timestamp = 1700000000,
      pht_Recipient = zero_address, pht_Value = 258, pht_CallData = [], pht_TxType = 0,
      pht_GasLimit = 21000, pht_TxHash = replicate 32 9\<rparr>"

text \<open>
  Two committed transactions that differ in their nonce, the matching transactions that
  refer to them by hash, and a B1 block and a B2 block that pair them position by position.
\<close>

definition example_pht1 :: PHTTransaction where
  "example_pht1 =
     \<lparr>pht_Sender = replicate 20 0, pht_GasPrice = 1000000000,
      pht_Commitment = [116, 101, 115, 116, 32, 99, 111, 109, 109, 105, 116, 109, 101, 110, 116],
      pht_Nonce = [110, 111, 110, 99, 101, 32, 48, 49], pht_Timestamp = 1700000000,
      pht_Recipient = replicate 20 0, pht_Value = 1000,
      pht_CallData = [116, 101, 115, 116, 32, 100, 97, 116, 97], pht_TxType = 0,
      pht_GasLimit = 21000, pht_TxHash = replicate 32 0\<rparr>"

definition example_pht2 :: PHTTransaction where
  "example_pht2 = example_pht1\<lparr>pht_Nonce := [110, 111, 110, 99, 101, 32, 48, 50]\<rparr>"

definition example_mt1 :: MTTransaction where
  "example_mt1 =
     \<lparr>mt_Recipient = replicate 20 0, mt_Value = 1000,
      mt_CallData = [116, 101, 115, 116, 32, 100, 97, 116, 97], mt_TxType = 0,
      mt_GasLimit = 21000,
      mt_PHTHash = [230, 126, 85, 156, 131, 173, 79, 130, 22, 176, 139, 68, 29, 114, 160, 112,
                    148, 205, 90, 17, 244, 216, 45, 248, 48, 217, 210, 219, 139, 22, 97, 178],
      mt_Proof = [116, 101, 115, 116, 32, 112, 114, 111, 111, 102], mt_ProofSpare = [],
      mt_Timestamp = 1700000006, mt_TxHash = replicate 32 0\<rparr>"

definition example_mt2 :: MTTransaction where
  "example_mt2 =
     example_mt1\<lparr>mt_PHTHash :=
        [209, 243, 22, 74, 146, 225, 148, 22, 192, 75, 184, 151, 158, 165, 81, 202,
         218, 15, 205, 125, 255, 84, 69, 169, 95, 239, 1, 35, 112, 184, 116, 24]\<rparr>"

definition example_b1 :: B1Block where
  "example_b1 =
     \<lparr>b1_Header = Some example_header, b1_PHTs = [Some example_pht1, Some example_pht2],
      b1_BlockType = 1, b1_MEVScore = 1, b1_DetectedAttacks = [], b1_ValidatorSig = [],
      b1_Timestamp = 1700000000, b1_BlockHash = replicate 32 3\<rparr>"

definition example_b2 :: B2Block where
  "example_b2 =
     \<lparr>b2_Header = Some \<lparr>hdr_ParentHash = replicate 32 3, hdr_Extra = [2], hdr_Hash = replicate 32 4\<rparr>,
      b2_MTs = [Some example_mt1, Some example_mt2], b2_BlockType = 2,
      b2_B1BlockHash = replicate 32 3, b2_ValidatorSig = [], b2_Timestamp = 1700000006,
      b2_BlockHash = replicate 32 4\<rparr>"

text \<open>
  Keys for a full cache, and a committed transaction with the largest timestamp of
  \<open>uint64\<close>.
\<close>

definition example_key :: "nat \<Rightarrow> hash" where
  "example_key i = [1 + word_of_nat (i div 256), word_of_nat (i mod 256)] @ replicate 30 0"

definition example_late_pht :: PHTTransaction where
  "example_late_pht = example_pht1\<lparr>pht_Timestamp := - 1\<rparr>"

definition example_entries :: "nat \<Rightarrow> (hash \<times> PHTTransaction) list" where
  \<comment> \<open>\<open>n\<close> such transactions under the first \<open>n\<close> keys\<close>
  "example_entries n = map (\<lambda>i. (example_key i, example_late_pht)) [0..<n]"


section \<open>Properties of the big-integer encoding\<close>

lemma int_bytes_nonempty: "0 < x \<Longrightarrow> int_bytes x \<noteq> []"
  by (subst int_bytes.simps) simp

lemma int_bytes_no_leading_zero: "int_bytes x = b # bs \<Longrightarrow> b \<noteq> 0"
proof (induction x arbitrary: b bs rule: int_bytes.induct)
  case (1 x)
  show ?case
  proof (cases "x \<le> 0")
    case True
    with 1(2) show ?thesis by (simp add: int_bytes.simps)
  next
    case False
    then have eq: "int_bytes x = int_bytes (x div 256) @ [word_of_int (x mod 256)]"
      by (subst int_bytes.simps) simp
    show ?thesis
    proof (cases "x div 256 \<le> 0")
      case True
      with False have small: "0 < x" "x < 256" by auto
      from True have "int_bytes (x div 256) = []" by (simp add: int_bytes.simps)
      with eq 1(2) have "b = word_of_int (x mod 256)" by simp
      with small show ?thesis
        by (simp add: word_of_int_eq_0_iff zmod_eq_0_iff) (auto dest: zdvd_imp_le)
    next
      case False2: False
      then have "int_bytes (x div 256) \<noteq> []" by (simp add: int_bytes_nonempty)
      then obtain c cs where cs: "int_bytes (x div 256) = c # cs"
        by (cases "int_bytes (x div 256)") auto
      with eq 1(2) have "b = c" by simp
      moreover have "c \<noteq> 0" using 1(1) [OF False cs] .
      ultimately show ?thesis by simp
    qed
  qed
qed

lemma modpow_eq: "0 \<le> y \<Longrightarrow> modpow x y m = (x ^ nat y) mod m"
proof (induction x y m rule: modpow.induct)
  case (1 x y m)
  show ?case
  proof (cases "y \<le> 0")
    case True
    with 1(2) have "y = 0" by simp
    then show ?thesis by (simp add: modpow.simps)
  next
    case False
    then have pos: "0 < y" by simp
    define k where "k = nat (y div 2)"
    have ih: "modpow x (y div 2) m = (x ^ k) mod m"
      using 1(1) [OF False] pos by (simp add: k_def)
    have sq: "(x ^ k mod m * (x ^ k mod m)) mod m = x ^ (2 * k) mod m"
    proof -
      have "(x ^ k mod m * (x ^ k mod m)) mod m = (x ^ k * x ^ k) mod m"
        by (rule mod_mult_eq)
      also have "x ^ k * x ^ k = x ^ (2 * k)"
        by (simp add: power_add [symmetric] mult_2)
      finally show ?thesis .
    qed
    show ?thesis
    proof (cases "even y")
      case True
      then have "nat y = 2 * k" using pos by (auto simp: k_def elim!: evenE)
      with ih sq True False show ?thesis
        by (subst modpow.simps) (simp add: Let_def)
    next
      case odd: False
      then have "nat y = Suc (2 * k)"
        using pos by (auto simp: k_def nat_add_distrib nat_mult_distrib elim!: oddE)
      moreover have "(x ^ (2 * k) mod m * x) mod m = x ^ Suc (2 * k) mod m"
      proof -
        have "(x ^ (2 * k) mod m * x) mod m = (x ^ (2 * k) * x) mod m"
          by (rule mod_mult_left_eq)
        then show ?thesis by (simp add: mult.commute)
      qed
      ultimately show ?thesis using ih sq odd False
        by (subst modpow.simps) (simp add: Let_def)
    qed
  qed
qed

lemma big_Exp_eq: "0 \<le> y \<Longrightarrow> m \<noteq> 0 \<Longrightarrow> big_Exp x y m = (x ^ nat y) mod \<bar>m\<bar>"
  by (simp add: big_Exp_def modpow_eq)

lemma big_Bytes_not_zero_byte: "big_Bytes x \<noteq> [0]" "[0] \<noteq> big_Bytes x"
  using int_bytes_no_leading_zero [of "\<bar>x\<bar>" 0 "[]"] by (auto simp: big_Bytes_def)

section \<open>Properties of the commitment scheme\<close>

lemma Commit_nonempty:
  "data \<noteq> [] \<Longrightarrow> PedersenCommitment_Commit p data =
     Inr (big_Bytes (big_Exp (generator p) (big_SetBytes (sha256 (concat data))) (modulus p)))"
  by (simp add: PedersenCommitment_Commit_def Let_def)

lemma Verify_iff_Commit:
  "PedersenCommitment_Verify p c data \<longleftrightarrow> PedersenCommitment_Commit p data = Inr c"
  by (auto simp: PedersenCommitment_Verify_def split: sum.splits)

lemma Verify_Commit_round_trip:
  "data \<noteq> [] \<Longrightarrow>
   \<exists>c. PedersenCommitment_Commit p data = Inr c \<and> PedersenCommitment_Verify p c data"
  by (simp add: Commit_nonempty Verify_iff_Commit)

lemma big_Bytes_258: "big_Bytes 258 = [1, 2]"
  by (simp add: big_Bytes_def int_bytes.simps)

lemma big_Bytes_1: "big_Bytes 1 = [1]"
  by (simp add: big_Bytes_def int_bytes.simps)

text \<open>
  Claim C2 asks that two distinct field lists never share a commitment, also when they
  split the same bytes differently, and the documentation of the repository calls the
  commitments binding ("Cryptographic commitments prevent modification").  \<open>Commit\<close>
  writes the fields one after the other into a single hasher, so the boundaries between
  the fields are lost.  The lists \<open>[[1], [2]]\<close> and \<open>[[1, 2]]\<close> are distinct, get the
  same commitment, and the commitment of the first verifies against the second.  The same
  happens between the value and the call data of a transaction: the hidden fields of a
  transfer of 258 wei (bytes \<open>01 02\<close>) without call data and those of a transfer of 1 wei
  with the call data \<open>02\<close> have one commitment, so the committed transaction passes
  \<open>ValidatePHT\<close> after its value and call data have been replaced, and
  \<open>VerifyCommitment\<close> accepts the replaced fields as the revealed ones.
\<close>

theorem Commit_not_binding_across_field_splits:
  "[[1], [2]] \<noteq> [[1, 2 :: byte]] \<and>
   PedersenCommitment_Commit NewPedersenCommitment [[1], [2]] =
     Inr (big_Bytes (big_Exp 2 (big_SetBytes (sha256 [1, 2])) secp256k1_P)) \<and>
   PedersenCommitment_Commit NewPedersenCommitment [[1, 2]] =
     Inr (big_Bytes (big_Exp 2 (big_SetBytes (sha256 [1, 2])) secp256k1_P)) \<and>
   PedersenCommitment_Verify NewPedersenCommitment
     (big_Bytes (big_Exp 2 (big_SetBytes (sha256 [1, 2])) secp256k1_P)) [[1, 2]] \<and>
   hiddenData zero_address 258 [] 0 21000 \<noteq> hiddenData zero_address 1 [2] 0 21000 \<and>
   PedersenCommitment_Commit NewPedersenCommitment (hiddenData zero_address 258 [] 0 21000) =
     Inr (pht_Commitment example_committed_pht) \<and>
   PedersenCommitment_Commit NewPedersenCommitment (hiddenData zero_address 1 [2] 0 21000) =
     Inr (pht_Commitment example_committed_pht) \<and>
   ValidatePHT NewPedersenCommitment example_committed_pht = None \<and>
   ValidatePHT NewPedersenCommitment
     (example_committed_pht\<lparr>pht_Value := 1, pht_CallData := [2]\<rparr>) = None \<and>
   VerifyCommitment NewPedersenCommitment example_committed_pht zero_address 1 [2] 0 21000"
proof -
  have fields: "hiddenData zero_address 258 [] 0 21000 \<noteq> hiddenData zero_address 1 [2] 0 21000"
    by (simp add: hiddenData_def big_Bytes_258 big_Bytes_1)
  have same: "concat (hiddenData zero_address 1 [2] 0 21000)
                = concat (hiddenData zero_address 258 [] 0 21000)"
    by (simp add: hiddenData_def big_Bytes_258 big_Bytes_1)
  have ne: "hiddenData zero_address 258 [] 0 21000 \<noteq> []"
    "hiddenData zero_address 1 [2] 0 21000 \<noteq> []"
    by (simp_all add: hiddenData_def)
  have c1: "PedersenCommitment_Commit NewPedersenCommitment (hiddenData zero_address 258 [] 0 21000)
              = Inr (pht_Commitment example_committed_pht)"
    by (simp add: Commit_nonempty [OF ne(1)] NewPedersenCommitment_def example_committed_pht_def)
  have c2: "PedersenCommitment_Commit NewPedersenCommitment (hiddenData zero_address 1 [2] 0 21000)
              = Inr (pht_Commitment example_committed_pht)"
    by (simp add: Commit_nonempty [OF ne(2)] same NewPedersenCommitment_def
        example_committed_pht_def)
  have fld: "pht_Recipient example_committed_pht = zero_address"
    "pht_Value example_committed_pht = 258" "pht_CallData example_committed_pht = []"
    "pht_TxType example_committed_pht = 0" "pht_GasLimit example_committed_pht = 21000"
    "pht_Nonce example_committed_pht \<noteq> []" "pht_Timestamp example_committed_pht \<noteq> 0"
    "0 < pht_GasPrice example_committed_pht"
    by (simp_all add: example_committed_pht_def)
  have v1: "ValidatePHT NewPedersenCommitment example_committed_pht = None"
    using fld by (simp add: ValidatePHT_def Verify_iff_Commit c1)
  have v2: "ValidatePHT NewPedersenCommitment
              (example_committed_pht\<lparr>pht_Value := 1, pht_CallData := [2]\<rparr>) = None"
    using fld by (simp add: ValidatePHT_def Verify_iff_Commit c2)
  have v3: "VerifyCommitment NewPedersenCommitment example_committed_pht zero_address 1 [2] 0 21000"
    by (simp add: VerifyCommitment_def Verify_iff_Commit c2)
  have small: "[[1], [2]] \<noteq> [[1, 2 :: byte]] \<and>
      PedersenCommitment_Commit NewPedersenCommitment [[1], [2]] =
        Inr (big_Bytes (big_Exp 2 (big_SetBytes (sha256 [1, 2])) secp256k1_P)) \<and>
      PedersenCommitment_Commit NewPedersenCommitment [[1, 2]] =
        Inr (big_Bytes (big_Exp 2 (big_SetBytes (sha256 [1, 2])) secp256k1_P)) \<and>
      PedersenCommitment_Verify NewPedersenCommitment
        (big_Bytes (big_Exp 2 (big_SetBytes (sha256 [1, 2])) secp256k1_P)) [[1, 2]]"
    by (simp add: Commit_nonempty Verify_iff_Commit NewPedersenCommitment_def)
  from small fields c1 c2 v1 v2 v3 show ?thesis
    by blast
qed

section \<open>Properties of the proof system\<close>

lemma padToPowerOfTwo_loop_ge:
  "0 < p \<Longrightarrow> n \<le> padToPowerOfTwo_loop p n \<and> p \<le> padToPowerOfTwo_loop p n"
proof (induction p n rule: padToPowerOfTwo_loop.induct)
  case (1 nextPower n)
  show ?case
  proof (cases "nextPower < n")
    case True
    with 1 have "n \<le> padToPowerOfTwo_loop (2 * nextPower) n \<and>
                 2 * nextPower \<le> padToPowerOfTwo_loop (2 * nextPower) n"
      by simp
    with True 1(2) show ?thesis
      by (subst (1 2) padToPowerOfTwo_loop.simps) simp
  next
    case False
    with 1(2) show ?thesis
      by (subst (1 2) padToPowerOfTwo_loop.simps) simp
  qed
qed

lemma length_padToPowerOfTwo:
  "data \<noteq> [] \<Longrightarrow> length (padToPowerOfTwo data) = padToPowerOfTwo_loop 1 (length data)"
  using padToPowerOfTwo_loop_ge [of 1 "length data"]
  by (simp add: padToPowerOfTwo_def Let_def)

lemma padToPowerOfTwo_single: "padToPowerOfTwo [d] = [d]"
  by (simp add: padToPowerOfTwo_def padToPowerOfTwo_loop.simps)

text \<open>
  The loop over the internal nodes reads the children of node \<open>i\<close> at \<open>2 * i - m\<close> and
  \<open>2 * i - m + 1\<close>.  With \<open>m\<close> leaves and \<open>2 * m - 1\<close> nodes the second index leaves the
  slice before the loop ends, whenever there are two leaves or more.
\<close>

lemma buildMerkleTree_loop_panics:
  "2 \<le> m \<Longrightarrow> int (length tree) = 2 * m - 1 \<Longrightarrow> m \<le> i \<Longrightarrow> i < 2 * m - 1 \<Longrightarrow>
   buildMerkleTree_loop m i tree = Inl PanicIndexOutOfRange"
proof (induction m i tree rule: buildMerkleTree_loop.induct)
  case (1 m i tree)
  show ?case
  proof (cases "2 * i - m + 1 < 2 * m - 1")
    case False
    with 1(2-) show ?thesis
      by (subst buildMerkleTree_loop.simps) (auto simp: index_def split: sum.splits)
  next
    case True
    with 1(2-) have inr: "index tree (2 * i - m) = Inr (tree ! nat (2 * i - m))"
      "index tree (2 * i - m + 1) = Inr (tree ! nat (2 * i - m + 1))"
      by (auto simp: index_def)
    from True 1(2-) have next_ok: "i + 1 < 2 * m - 1" by linarith
    have "buildMerkleTree_loop m (i + 1)
            (tree[nat i := sha256 (tree ! nat (2 * i - m) @ tree ! nat (2 * i - m + 1))])
          = Inl PanicIndexOutOfRange"
      using 1(2-) next_ok inr by (intro 1(1)) auto
    with 1(2-) inr show ?thesis
      by (subst buildMerkleTree_loop.simps) simp
  qed
qed

lemma buildMerkleTree_two_or_more:
  assumes "2 \<le> length data"
  shows "buildMerkleTree data = Inl PanicIndexOutOfRange"
proof -
  from assms have ne: "data \<noteq> []" by auto
  define m where "m = length (padToPowerOfTwo data)"
  have m2: "2 \<le> m"
    using padToPowerOfTwo_loop_ge [of 1 "length data"] assms ne
    by (simp add: m_def length_padToPowerOfTwo)
  have "buildMerkleTree_loop (int m) (int m) (padToPowerOfTwo data @ replicate (m - 1) [])
          = Inl PanicIndexOutOfRange"
    using m2 by (intro buildMerkleTree_loop_panics) (auto simp: m_def)
  with ne show ?thesis
    by (simp add: buildMerkleTree_def Let_def m_def)
qed

lemma buildMerkleTree_single: "buildMerkleTree [d] = Inr [d]"
  by (simp add: buildMerkleTree_def padToPowerOfTwo_single buildMerkleTree_loop.simps)

lemma Prove_single:
  "MerkleProofSystem_Prove c [d] = (if d = c then Inr [] else Inl CommitmentNotFoundInTree)"
  by (simp add: MerkleProofSystem_Prove_def buildMerkleTree_single findLeafIndex_def
      generateMerkleProof_def generateMerkleProof_loop.simps)

lemma Verify_empty_proof: "MerkleProofSystem_Verify [] spare c [d] = Inr False"
  by (simp add: MerkleProofSystem_Verify_def buildMerkleTree_single verifyMerkleProof_def)

lemma Prove_two_or_more:
  "2 \<le> length data \<Longrightarrow> MerkleProofSystem_Prove c data = Inl PanicIndexOutOfRange"
  by (auto simp add: MerkleProofSystem_Prove_def buildMerkleTree_two_or_more)


text \<open>
  No commitment and no field list round-trip: with one field \<open>Prove\<close> either does not
  find the commitment or returns the empty proof, which \<open>Verify\<close> rejects; with two
  fields or more both panic while building the tree.
\<close>

lemma Prove_Verify_never_round_trips:
  "\<not> (\<exists>p. MerkleProofSystem_Prove c data = Inr p \<and>
          MerkleProofSystem_Verify p spare c data = Inr True)"
proof (cases "length data < 2")
  case False
  then show ?thesis by (simp add: Prove_two_or_more)
next
  case True
  then consider "data = []" | d where "data = [d]"
    by (cases data) (auto simp: less_Suc_eq)
  then show ?thesis
  proof cases
    case 1
    then show ?thesis by (simp add: MerkleProofSystem_Prove_def)
  next
    case 2
    then show ?thesis by (auto simp: Prove_single Verify_empty_proof split: if_splits)
  qed
qed

text \<open>
  Claim C1 asks that \<open>Prove (Commit F) F\<close> succeeds for every non-empty field list \<open>F\<close>
  and that its proof verifies.  On the five hidden fields of the transaction of
  \<open>TestMTManager\<close> (zero recipient, value 1000, call data "test data", type 0, gas limit
  21000) \<open>Commit\<close> succeeds and \<open>Prove\<close> on its commitment panics with an index out of
  range; on the single field \<open>[0]\<close> \<open>Prove\<close> returns "commitment not found in tree".
\<close>

theorem Prove_fails_on_committed_fields:
  "PedersenCommitment_Commit NewPedersenCommitment
     (hiddenData zero_address 1000 [116, 101, 115, 116, 32, 100, 97, 116, 97] 0 21000)
     = Inr (big_Bytes (big_Exp 2 (big_SetBytes (sha256 (concat
              (hiddenData zero_address 1000 [116, 101, 115, 116, 32, 100, 97, 116, 97] 0 21000))))
              secp256k1_P)) \<and>
   MerkleProofSystem_Prove
     (big_Bytes (big_Exp 2 (big_SetBytes (sha256 (concat
        (hiddenData zero_address 1000 [116, 101, 115, 116, 32, 100, 97, 116, 97] 0 21000))))
        secp256k1_P))
     (hiddenData zero_address 1000 [116, 101, 115, 116, 32, 100, 97, 116, 97] 0 21000)
     = Inl PanicIndexOutOfRange \<and>
   PedersenCommitment_Commit NewPedersenCommitment [[0]]
     = Inr (big_Bytes (big_Exp 2 (big_SetBytes (sha256 [0])) secp256k1_P)) \<and>
   MerkleProofSystem_Prove (big_Bytes (big_Exp 2 (big_SetBytes (sha256 [0])) secp256k1_P)) [[0]]
     = Inl CommitmentNotFoundInTree"
proof -
  have "hiddenData zero_address 1000 [116, 101, 115, 116, 32, 100, 97, 116, 97] 0 21000 \<noteq> []"
    and "2 \<le> length (hiddenData zero_address 1000 [116, 101, 115, 116, 32, 100, 97, 116, 97] 0 21000)"
    by (simp_all add: hiddenData_def)
  then show ?thesis
    by (simp add: Commit_nonempty Prove_two_or_more Prove_single NewPedersenCommitment_def
        big_Bytes_not_zero_byte)
qed

section \<open>Properties of the proposer selection\<close>

lemma SelectProposer_zero_total:
  "validators \<noteq> [] \<Longrightarrow> SelectProposer_totalWeight validators 0 = 0 \<Longrightarrow>
   SelectProposer validators visit2 visit3 r = Inl NoActiveValidators"
  by (simp add: SelectProposer_def)

text \<open>
  Claim C3 asks that a registry with an active validator, all of whose active validators
  have zero weight, makes \<open>SelectProposer\<close> return the first active validator.  A
  validator added with a stake of one ether and then given \<open>UpdateReputation (-200)\<close>
  is active with reputation \<open>-100\<close>, hence of weight \<open>stake * (-100 + 100) = 0\<close>.  On
  that registry \<open>SelectProposer\<close> returns "no active validators" for every draw and every
  visiting order: the test \<open>totalWeight = 0\<close> returns before the loop that falls back to
  the first active validator, which would have returned the validator.
\<close>

theorem SelectProposer_rejects_active_zero_weight_validator:
  "vm_validators
     (UpdateReputation 1700000000 (replicate 20 1) (- 200)
        (snd (AddValidator 1700000000 (replicate 20 1) 1000000000000000000
                (NewValidatorManager DefaultP2SConfig)))) =
     [(replicate 20 1,
       \<lparr>v_Address = replicate 20 1, v_Stake = 1000000000000000000, v_Reputation = - 100,
        v_IsActive = True, v_LastBlock = 0, v_CreatedAt = 1700000000,
        v_UpdatedAt = 1700000000\<rparr>)] \<and>
   (\<forall>r visit2 visit3.
      SelectProposer
        [(replicate 20 1,
          \<lparr>v_Address = replicate 20 1, v_Stake = 1000000000000000000, v_Reputation = - 100,
           v_IsActive = True, v_LastBlock = 0, v_CreatedAt = 1700000000,
           v_UpdatedAt = 1700000000\<rparr>)]
        visit2 visit3 r = Inl NoActiveValidators) \<and>
   SelectProposer_fallback
     [(replicate 20 1,
       \<lparr>v_Address = replicate 20 1, v_Stake = 1000000000000000000, v_Reputation = - 100,
        v_IsActive = True, v_LastBlock = 0, v_CreatedAt = 1700000000,
        v_UpdatedAt = 1700000000\<rparr>)] = Some (replicate 20 1)"
  by (simp add: UpdateReputation_def AddValidator_def NewValidatorManager_def DefaultP2SConfig_def
      SelectProposer_def weight_def)

section \<open>Properties of the rounding to \<open>float64\<close>\<close>

text \<open>
  The rounding is monotone, it leaves the natural numbers up to \<open>2^53\<close> as they are,
  it moves a number by at most half the distance between neighbours, and \<open>2^53 + 1\<close>
  is rounded down.
\<close>

lemma float64_exponent_bounds:
  assumes "0 < x"
  shows "2 powi (float64_exponent x) \<le> x \<and> x < 2 powi (float64_exponent x + 1)"
proof (cases "1 \<le> x")
  case True
  then have pos: "0 < \<lfloor>x\<rfloor>" by simp
  from bitlen_bounds [OF pos]
  have lo: "2 ^ nat (bitlen \<lfloor>x\<rfloor> - 1) \<le> \<lfloor>x\<rfloor>" and hi: "\<lfloor>x\<rfloor> < 2 ^ nat (bitlen \<lfloor>x\<rfloor>)"
    by auto
  from pos have b1: "1 \<le> bitlen \<lfloor>x\<rfloor>"
    by (simp add: bitlen_alt_def)
  have "(2::real) ^ nat (bitlen \<lfloor>x\<rfloor> - 1) = of_int (2 ^ nat (bitlen \<lfloor>x\<rfloor> - 1))"
    by simp
  also have "\<dots> \<le> of_int \<lfloor>x\<rfloor>"
    using lo by (simp only: of_int_le_iff)
  also have "\<dots> \<le> x" by simp
  finally have l: "(2::real) ^ nat (bitlen \<lfloor>x\<rfloor> - 1) \<le> x" .
  from hi have "\<lfloor>x\<rfloor> + 1 \<le> 2 ^ nat (bitlen \<lfloor>x\<rfloor>)" by simp
  then have "of_int (\<lfloor>x\<rfloor> + 1) \<le> (of_int (2 ^ nat (bitlen \<lfloor>x\<rfloor>)) :: real)"
    by (simp only: of_int_le_iff)
  moreover have "x < of_int (\<lfloor>x\<rfloor> + 1)" by linarith
  ultimately have "x < (of_int (2 ^ nat (bitlen \<lfloor>x\<rfloor>)) :: real)" by linarith
  then have h: "x < 2 ^ nat (bitlen \<lfloor>x\<rfloor>)" by simp
  from True b1 l h show ?thesis
    by (simp add: float64_exponent_def power_int_def)
next
  case False
  with assms have x: "0 < x" "x < 1" by simp_all
  define m where "m = \<lceil>1 / x\<rceil>"
  define k where "k = bitlen (m - 1)"
  from x have y: "1 < 1 / x" by simp
  then have m2: "2 \<le> m" unfolding m_def by linarith
  then have pos: "0 < m - 1" by simp
  from bitlen_bounds [OF pos]
  have lo: "2 ^ nat (k - 1) \<le> m - 1" and hi: "m - 1 < 2 ^ nat k"
    by (auto simp: k_def)
  from pos have k1: "1 \<le> k"
    by (simp add: bitlen_alt_def k_def)
  have "of_int (m - 1) < 1 / x" unfolding m_def by linarith
  moreover have "(2::real) ^ nat (k - 1) \<le> of_int (m - 1)"
    using lo by (metis of_int_le_iff of_int_numeral of_int_power)
  ultimately have a: "(2::real) ^ nat (k - 1) < 1 / x" by linarith
  have "1 / x \<le> of_int m" unfolding m_def by linarith
  moreover have "of_int m \<le> (2::real) ^ nat k"
  proof -
    from hi have "m \<le> 2 ^ nat k" by simp
    then show ?thesis by (metis of_int_le_iff of_int_numeral of_int_power)
  qed
  ultimately have b: "1 / x \<le> 2 ^ nat k" by linarith
  from a x have hi': "x < 1 / 2 ^ nat (k - 1)"
    by (simp add: field_simps)
  from b x have lo': "1 / 2 ^ nat k \<le> x"
    by (simp add: field_simps)
  have e: "float64_exponent x = - k"
    using False by (simp add: float64_exponent_def k_def m_def)
  have p1: "(2::real) powi (- k) = 1 / 2 ^ nat k"
    using k1 by (simp add: power_int_def field_simps)
  have p2: "(2::real) powi (- k + 1) = 1 / 2 ^ nat (k - 1)"
  proof (cases "k = 1")
    case True
    then show ?thesis by simp
  next
    case False
    with k1 have "- k + 1 < 0" by simp
    moreover have "nat (- (- k + 1)) = nat (k - 1)" by simp
    ultimately show ?thesis by (simp add: power_int_def field_simps)
  qed
  from lo' hi' show ?thesis
    by (simp only: e p1 p2)
qed


lemma float64_exponent_mono:
  assumes "0 < x" and "x \<le> y"
  shows "float64_exponent x \<le> float64_exponent y"
proof (rule ccontr)
  assume "\<not> ?thesis"
  then have "float64_exponent y + 1 \<le> float64_exponent x" by simp
  then have "(2::real) powi (float64_exponent y + 1) \<le> 2 powi (float64_exponent x)"
    by (intro power_int_increasing) simp_all
  moreover from assms have "0 < y" by simp
  ultimately show False
    using float64_exponent_bounds [OF assms(1)] float64_exponent_bounds [OF \<open>0 < y\<close>] assms(2) by linarith
qed


lemma round_half_even_of_int [simp]: "round_half_even (of_int k) = k"
  by (simp add: round_half_even_def)

lemma round_half_even_mono:
  assumes "p \<le> q"
  shows "round_half_even p \<le> round_half_even q"
proof (cases "\<lfloor>p\<rfloor> = \<lfloor>q\<rfloor>")
  case True
  with assms show ?thesis
    unfolding round_half_even_def Let_def by auto
next
  case False
  with assms have "\<lfloor>p\<rfloor> < \<lfloor>q\<rfloor>"
    using floor_mono [OF assms] by linarith
  then have "\<lfloor>p\<rfloor> + 1 \<le> \<lfloor>q\<rfloor>" by simp
  moreover have "round_half_even p \<le> \<lfloor>p\<rfloor> + 1"
    unfolding round_half_even_def Let_def by auto
  moreover have "\<lfloor>q\<rfloor> \<le> round_half_even q"
    unfolding round_half_even_def Let_def by auto
  ultimately show ?thesis by linarith
qed

lemma round_half_even_minus: "round_half_even (- q) = - round_half_even q"
proof (cases "q = of_int \<lfloor>q\<rfloor>")
  case True
  then obtain k where "q = of_int k" by blast
  then have "- q = of_int (- k)" by simp
  with \<open>q = of_int k\<close> show ?thesis
    by (simp only: round_half_even_of_int)
next
  case False
  then have fl: "\<lfloor>- q\<rfloor> = - \<lfloor>q\<rfloor> - 1"
    by (metis ceiling_altdef ceiling_def diff_minus_eq_add add_diff_cancel minus_minus uminus_add_conv_diff)
  show ?thesis
    unfolding round_half_even_def Let_def fl
    by (auto; linarith)
qed

lemma float64_ulp_pos: "0 < float64_ulp x"
  by (simp add: float64_ulp_def)

lemma float64_ulp_minus: "float64_ulp (- x) = float64_ulp x"
  by (simp add: float64_ulp_def)

lemma float64_minus: "float64 (- x) = - float64 x"
  by (simp add: float64_def float64_ulp_minus round_half_even_minus)

lemma float64_nonneg: "0 \<le> x \<Longrightarrow> 0 \<le> float64 x"
proof -
  assume "0 \<le> x"
  then have "0 \<le> x / float64_ulp x"
    using float64_ulp_pos [of x] by simp
  from round_half_even_mono [OF this] have "0 \<le> round_half_even (x / float64_ulp x)"
    using round_half_even_of_int [of 0] by simp
  then show ?thesis
    using float64_ulp_pos [of x] by (simp add: float64_def)
qed

lemma float64_mono_pos:
  assumes "0 < x" and "x \<le> y"
  shows "float64 x \<le> float64 y"
proof -
  from assms have y: "0 < y" by simp
  define Ex where "Ex = max (float64_exponent x) (- 1022)"
  define Ey where "Ey = max (float64_exponent y) (- 1022)"
  have ux: "float64_ulp x = 2 powi (Ex - 52)"
    using assms(1) by (simp add: float64_ulp_def Ex_def)
  have uy: "float64_ulp y = 2 powi (Ey - 52)"
    using y by (simp add: float64_ulp_def Ey_def)
  have fx: "float64 x = of_int (round_half_even (x / 2 powi (Ex - 52))) * 2 powi (Ex - 52)"
    using assms(1) by (simp add: float64_def ux)
  have fy: "float64 y = of_int (round_half_even (y / 2 powi (Ey - 52))) * 2 powi (Ey - 52)"
    using y by (simp add: float64_def uy)
  from float64_exponent_mono [OF assms] have le: "Ex \<le> Ey"
    by (simp add: Ex_def Ey_def)
  show ?thesis
  proof (cases "Ex = Ey")
    case True
    from assms(2) have "x / 2 powi (Ey - 52) \<le> y / 2 powi (Ey - 52)"
      by (simp add: divide_right_mono)
    from round_half_even_mono [OF this] show ?thesis
      by (simp add: fx fy True)
  next
    case False
    with le have lt: "Ex + 1 \<le> Ey" by simp
    then have "- 1022 < Ey" by (simp add: Ex_def)
    then have Ey: "Ey = float64_exponent y" by (simp add: Ey_def)
    have "x < 2 powi (float64_exponent x + 1)"
      using float64_exponent_bounds [OF assms(1)] by simp
    also have "\<dots> \<le> 2 powi (Ex + 1)"
      by (intro power_int_increasing) (simp_all add: Ex_def)
    finally have xlt: "x < 2 powi (Ex + 1)" .
    have "x / 2 powi (Ex - 52) \<le> 2 powi (Ex + 1) / 2 powi (Ex - 52)"
      using xlt by (simp add: divide_right_mono)
    also have "\<dots> = 2 powi 53"
      by (simp flip: power_int_diff)
    finally have "x / 2 powi (Ex - 52) \<le> of_int (2 ^ 53)"
      by simp
    from round_half_even_mono [OF this]
    have "round_half_even (x / 2 powi (Ex - 52)) \<le> 2 ^ 53"
      by (simp only: round_half_even_of_int)
    then have "real_of_int (round_half_even (x / 2 powi (Ex - 52))) \<le> 2 powi 53"
      by (metis of_int_le_iff of_int_numeral of_int_power power_int_numeral)
    then have "float64 x \<le> 2 powi 53 * 2 powi (Ex - 52)"
      by (simp add: fx)
    also have "\<dots> = 2 powi (Ex + 1)"
      using power_int_add [of "2::real" 53 "Ex - 52"] by (simp add: add.commute)
    also have "\<dots> \<le> 2 powi Ey"
      using lt by (intro power_int_increasing) simp_all
    finally have a: "float64 x \<le> 2 powi Ey" .
    have "2 powi Ey \<le> y"
      using float64_exponent_bounds [OF y] by (simp add: Ey)
    then have "2 powi Ey / 2 powi (Ey - 52) \<le> y / 2 powi (Ey - 52)"
      by (simp add: divide_right_mono)
    moreover have "(2::real) powi Ey / 2 powi (Ey - 52) = 2 powi 52"
      by (simp flip: power_int_diff)
    ultimately have "of_int (2 ^ 52) \<le> y / 2 powi (Ey - 52)"
      by simp
    from round_half_even_mono [OF this]
    have "2 ^ 52 \<le> round_half_even (y / 2 powi (Ey - 52))"
      by (simp only: round_half_even_of_int)
    then have "2 powi 52 \<le> real_of_int (round_half_even (y / 2 powi (Ey - 52)))"
      by (metis of_int_le_iff of_int_numeral of_int_power power_int_numeral)
    then have "2 powi 52 * 2 powi (Ey - 52) \<le> float64 y"
      by (simp add: fy)
    moreover have "(2::real) powi 52 * 2 powi (Ey - 52) = 2 powi Ey"
      using power_int_add [of "2::real" 52 "Ey - 52"] by (simp add: add.commute)
    ultimately have "2 powi Ey \<le> float64 y" by simp
    with a show ?thesis by linarith
  qed
qed

lemma float64_zero [simp]: "float64 0 = 0"
  by (simp add: float64_def)

lemma float64_mono: "x \<le> y \<Longrightarrow> float64 x \<le> float64 y"
proof -
  assume le: "x \<le> y"
  consider "0 < x" | "x \<le> 0" "0 \<le> y" | "y < 0" by linarith
  then show ?thesis
  proof cases
    case 1
    from 1 le show ?thesis by (rule float64_mono_pos)
  next
    case 2
    from 2(1) have "0 \<le> float64 (- x)" by (intro float64_nonneg) simp
    then have "float64 x \<le> 0" by (simp add: float64_minus)
    with float64_nonneg [OF 2(2)] show ?thesis by linarith
  next
    case 3
    with le have "0 < - y" "- y \<le> - x" by simp_all
    from float64_mono_pos [OF this] show ?thesis by (simp add: float64_minus)
  qed
qed

lemma float64_exact:
  assumes "x / float64_ulp x = of_int n"
  shows "float64 x = x"
proof (cases "x = 0")
  case True
  then show ?thesis by simp
next
  case False
  have "float64 x = of_int (round_half_even (of_int n)) * float64_ulp x"
    using False by (simp add: float64_def assms)
  also have "\<dots> = x / float64_ulp x * float64_ulp x"
    by (simp only: round_half_even_of_int assms)
  also have "\<dots> = x"
    using float64_ulp_pos [of x] by simp
  finally show ?thesis .
qed

lemma float64_of_nat:
  assumes "n \<le> 2 ^ 53"
  shows "float64 (real n) = real n"
proof (cases "n = 0")
  case True
  then show ?thesis by simp
next
  case False
  then have pos: "0 < real n" and one: "1 \<le> real n" by simp_all
  from assms have "real n \<le> real (2 ^ 53)"
    by (simp only: of_nat_le_iff)
  then have n53: "real n \<le> 2 ^ 53" by simp
  define e where "e = float64_exponent (real n)"
  from float64_exponent_bounds [OF pos] have lo: "2 powi e \<le> real n" and hi: "real n < 2 powi (e + 1)"
    by (simp_all add: e_def)
  have e0: "0 \<le> e"
    using one by (simp add: e_def float64_exponent_def bitlen_alt_def)
  have e53: "e \<le> 53"
  proof (rule ccontr)
    assume "\<not> e \<le> 53"
    then have "54 \<le> e" by simp
    then have "(2::real) powi 54 \<le> 2 powi e"
      by (intro power_int_increasing) simp_all
    with lo n53 show False by simp
  qed
  have ulp: "float64_ulp (real n) = 2 powi (e - 52)"
    using e0 by (simp add: float64_ulp_def e_def)
  show ?thesis
  proof (cases "e \<le> 52")
    case True
    then have "(2::real) powi (e - 52) = 1 / 2 ^ nat (52 - e)"
      by (cases "e = 52") (simp_all add: power_int_def field_simps)
    then have "real n / float64_ulp (real n) = of_int (int n * 2 ^ nat (52 - e))"
      by (simp add: ulp)
    then show ?thesis by (rule float64_exact)
  next
    case False
    with e53 have e: "e = 53" by simp
    from lo have "2 ^ 53 \<le> real n" by (simp add: e)
    with n53 have n: "real n = 2 ^ 53" by simp
    have "real n / float64_ulp (real n) = of_int (2 ^ 52)"
      unfolding ulp e by (simp add: n)
    then show ?thesis by (rule float64_exact)
  qed
qed

lemma float64_one [simp]: "float64 1 = 1"
  using float64_of_nat [of 1] by simp



section \<open>Properties of the MEV detector\<close>






lemma DetectMEV_empty: "DetectMEV [] = (1, [])"
  by (simp add: DetectMEV_def)







lemma example_risky_score:
  "float64 (float64 (float64 (1 - float64 (3 / 10)) - float64 (2 / 10)) - float64 (1 / 10))
     = 900719925474099 / 2251799813685248"
  by code_simp

lemma example_risky_pht:
  "\<exists>pht. convertToPHTs example_env [example_risky_tx] = Inr [pht] \<and>
         fst (analyzeTransaction pht) = 900719925474099 / 2251799813685248"
proof -
  have "\<exists>pht. convertToPHTs example_env [example_risky_tx] = Inr [pht] \<and>
          isSandwichPattern pht \<and> isFrontRunPattern pht \<and> isArbitragePattern pht \<and>
          \<not> isLiquidationPattern pht \<and> \<not> isHighValuePattern pht \<and>
          \<not> isContractInteractionPattern pht"
    by (simp add: convertToPHTs_def CreatePHT_def Commit_nonempty hiddenData_def example_env_def
        example_risky_tx_def isSandwichPattern_def isFrontRunPattern_def
        isArbitragePattern_def isLiquidationPattern_def isHighValuePattern_def
        isContractInteractionPattern_def isKnownArbitrageContract_def
        isKnownLiquidationContract_def)
  then obtain pht where conv: "convertToPHTs example_env [example_risky_tx] = Inr [pht]"
    and pats: "isSandwichPattern pht" "isFrontRunPattern pht" "isArbitragePattern pht"
      "\<not> isLiquidationPattern pht" "\<not> isHighValuePattern pht"
      "\<not> isContractInteractionPattern pht"
    by blast
  have "fst (analyzeTransaction pht) = 900719925474099 / 2251799813685248"
    by (simp only: analyzeTransaction_def pats Let_def prod.case if_True if_False fst_conv
        example_risky_score) simp
  with conv show ?thesis
    by blast
qed

lemma example_risky_batch_score:
  "float64 (float64 (900719925474099 / 2251799813685248)) < float64 (7 / 10)"
  by code_simp

text \<open>
  Claim C9: \<open>DetectMEV\<close> of the empty list is the score 1 with no attack; so, for a
  minimum score of at most 1, the comparison of the admission gate does not reject the
  empty batch, and \<open>prepareB1Block\<close> (whose batch is empty) does not return
  "insufficient MEV protection".
\<close>

theorem DetectMEV_empty_batch_passes_gate:
  "DetectMEV [] = (1, []) \<and>
   (cfg_MinMEVScore (p2s_config p) \<le> 1 \<longrightarrow>
      \<not> fst (DetectMEV []) < cfg_MinMEVScore (p2s_config p) \<and>
      fst (prepareB1Block env header p) \<noteq> Some InsufficientMEVProtection)"
  by (simp add: prepareB1Block_def prepareB1Block_of_def getPendingTransactions_def
      convertToPHTs_def DetectMEV_empty B1Block_Validate_def)

theorem DetectMEV_empty_batch_passes_gate_witness:
  "cfg_MinMEVScore (p2s_config (NewP2SConsensus DefaultP2SConfig)) \<le> 1 \<and>
   \<not> fst (DetectMEV []) < cfg_MinMEVScore (p2s_config (NewP2SConsensus DefaultP2SConfig)) \<and>
   fst (prepareB1Block example_env example_header (NewP2SConsensus DefaultP2SConfig))
     \<noteq> Some InsufficientMEVProtection"
proof -
  have le: "cfg_MinMEVScore (p2s_config (NewP2SConsensus DefaultP2SConfig)) \<le> 1"
    using float64_mono [of "7 / 10" 1] by (simp add: NewP2SConsensus_def DefaultP2SConfig_def)
  from DetectMEV_empty_batch_passes_gate
         [of "NewP2SConsensus DefaultP2SConfig" example_env example_header] le
  have "\<not> fst (DetectMEV []) < cfg_MinMEVScore (p2s_config (NewP2SConsensus DefaultP2SConfig)) \<and>
        fst (prepareB1Block example_env example_header (NewP2SConsensus DefaultP2SConfig))
          \<noteq> Some InsufficientMEVProtection"
    by (rule conjunct2 [THEN mp])
  with le show ?thesis
    by blast
qed

section \<open>Properties of the preparation of a B1 block\<close>

lemma prepareB1Block_of_atomic:
  "fst (prepareB1Block_of env pendingTxs header p) \<noteq> None \<Longrightarrow>
   snd (prepareB1Block_of env pendingTxs header p) = p"
  by (auto simp add: prepareB1Block_of_def split_def Let_def
      split: sum.splits option.splits if_splits)

lemma prepareB1Block_gate:
  "fst (DetectMEV []) < cfg_MinMEVScore (p2s_config p) \<Longrightarrow>
   prepareB1Block env header p = (Some InsufficientMEVProtection, p)"
  by (simp add: prepareB1Block_def prepareB1Block_of_def getPendingTransactions_def
      convertToPHTs_def split_def)

text \<open>
  Claim C4: when the score that \<open>DetectMEV\<close> gives to the converted batch is below
  \<open>MinMEVScore\<close>, the preparation returns "insufficient MEV protection" for the whole
  block, and the engine, its cache included, is as it was before the call.  The first
  half is about the body of \<open>prepareB1Block\<close> on any pending batch, the second about
  \<open>prepareB1Block\<close> itself, whose batch is the one of \<open>getPendingTransactions\<close>.
\<close>

theorem prepareB1Block_rejects_batch_below_MinMEVScore:
  "(convertToPHTs env pendingTxs = Inr phts \<and>
    fst (DetectMEV phts) < cfg_MinMEVScore (p2s_config p) \<longrightarrow>
      prepareB1Block_of env pendingTxs header p = (Some InsufficientMEVProtection, p) \<and>
      p2s_cache (snd (prepareB1Block_of env pendingTxs header p)) = p2s_cache p) \<and>
   (convertToPHTs env' getPendingTransactions = Inr phts' \<and>
    fst (DetectMEV phts') < cfg_MinMEVScore (p2s_config p') \<longrightarrow>
      prepareB1Block env' header' p' = (Some InsufficientMEVProtection, p') \<and>
      p2s_cache (snd (prepareB1Block env' header' p')) = p2s_cache p')"
  by (auto simp add: prepareB1Block_of_def prepareB1Block_def split_def)

theorem prepareB1Block_rejects_batch_below_MinMEVScore_witness:
  "(\<exists>phts. convertToPHTs example_env [example_risky_tx] = Inr phts \<and>
          fst (DetectMEV phts) < cfg_MinMEVScore (p2s_config (NewP2SConsensus DefaultP2SConfig))) \<and>
   prepareB1Block_of example_env [example_risky_tx] example_header
       (NewP2SConsensus DefaultP2SConfig)
     = (Some InsufficientMEVProtection, NewP2SConsensus DefaultP2SConfig) \<and>
   p2s_cache (snd (prepareB1Block_of example_env [example_risky_tx] example_header
                     (NewP2SConsensus DefaultP2SConfig))) = NewP2SCache \<and>
   convertToPHTs example_env getPendingTransactions = Inr [] \<and>
   fst (DetectMEV []) <
     cfg_MinMEVScore (p2s_config (NewP2SConsensus (DefaultP2SConfig\<lparr>cfg_MinMEVScore := 2\<rparr>))) \<and>
   prepareB1Block example_env example_header
       (NewP2SConsensus (DefaultP2SConfig\<lparr>cfg_MinMEVScore := 2\<rparr>))
     = (Some InsufficientMEVProtection,
        NewP2SConsensus (DefaultP2SConfig\<lparr>cfg_MinMEVScore := 2\<rparr>))"
proof -
  from example_risky_pht obtain pht
    where conv: "convertToPHTs example_env [example_risky_tx] = Inr [pht]"
      and score: "fst (analyzeTransaction pht) = 900719925474099 / 2251799813685248"
    by blast
  have "fst (DetectMEV [pht]) = float64 (float64 (fst (analyzeTransaction pht)))"
    by (simp add: DetectMEV_def split_def Let_def)
  also have "\<dots> = float64 (float64 (900719925474099 / 2251799813685248))"
    by (simp only: score)
  also have "\<dots> < float64 (7 / 10)"
    by (rule example_risky_batch_score)
  finally have low:
    "fst (DetectMEV [pht]) < cfg_MinMEVScore (p2s_config (NewP2SConsensus DefaultP2SConfig))"
    by (simp add: NewP2SConsensus_def DefaultP2SConfig_def)
  have conv': "convertToPHTs example_env getPendingTransactions = Inr []"
    by (simp add: convertToPHTs_def getPendingTransactions_def)
  have low': "fst (DetectMEV []) <
      cfg_MinMEVScore (p2s_config (NewP2SConsensus (DefaultP2SConfig\<lparr>cfg_MinMEVScore := 2\<rparr>)))"
    by (simp add: DetectMEV_empty NewP2SConsensus_def)
  note inst = prepareB1Block_rejects_batch_below_MinMEVScore
    [of example_env "[example_risky_tx]" "[pht]" "NewP2SConsensus DefaultP2SConfig"
        example_header example_env "[]"
        "NewP2SConsensus (DefaultP2SConfig\<lparr>cfg_MinMEVScore := 2\<rparr>)" example_header]
  from inst conv low
  have first: "prepareB1Block_of example_env [example_risky_tx] example_header
            (NewP2SConsensus DefaultP2SConfig)
          = (Some InsufficientMEVProtection, NewP2SConsensus DefaultP2SConfig)"
    by blast
  from inst conv' low'
  have second: "prepareB1Block example_env example_header
       (NewP2SConsensus (DefaultP2SConfig\<lparr>cfg_MinMEVScore := 2\<rparr>))
     = (Some InsufficientMEVProtection,
        NewP2SConsensus (DefaultP2SConfig\<lparr>cfg_MinMEVScore := 2\<rparr>))"
    by blast
  from first have cache: "p2s_cache (snd (prepareB1Block_of example_env [example_risky_tx]
      example_header (NewP2SConsensus DefaultP2SConfig))) = NewP2SCache"
    by (simp add: NewP2SConsensus_def)
  from conv low first cache conv' low' second show ?thesis
    by blast
qed

section \<open>Properties of the validation of a B2 block\<close>

text \<open>The hashes of the example transactions, computed by the definitions above.\<close>

lemma example_pht1_hash:
  "PHTTransaction_Hash example_pht1 =
     [230, 126, 85, 156, 131, 173, 79, 130, 22, 176, 139, 68, 29, 114, 160, 112,
      148, 205, 90, 17, 244, 216, 45, 248, 48, 217, 210, 219, 139, 22, 97, 178]"
  by code_simp

lemma example_pht2_hash:
  "PHTTransaction_Hash example_pht2 =
     [209, 243, 22, 74, 146, 225, 148, 22, 192, 75, 184, 151, 158, 165, 81, 202,
      218, 15, 205, 125, 255, 84, 69, 169, 95, 239, 1, 35, 112, 184, 116, 24]"
  by code_simp

lemma example_mt1_hash:
  "MTTransaction_Hash example_mt1 =
     [176, 62, 99, 64, 52, 127, 9, 86, 74, 182, 157, 70, 244, 175, 223, 112,
      240, 168, 195, 165, 135, 189, 218, 78, 77, 114, 68, 206, 166, 191, 130, 146]"
  by code_simp

lemma example_mt2_hash:
  "MTTransaction_Hash example_mt2 =
     [126, 196, 17, 98, 231, 197, 61, 8, 10, 7, 35, 217, 30, 97, 203, 35,
      239, 1, 5, 52, 160, 142, 136, 79, 206, 89, 155, 219, 22, 2, 150, 12]"
  by code_simp

lemma nonzero_head_not_zero_hash: "x \<noteq> 0 \<Longrightarrow> x # xs \<noteq> zero_hash"
proof
  assume "x \<noteq> 0" and "x # xs = zero_hash"
  then have "hd (x # xs) = hd zero_hash" by simp
  with \<open>x \<noteq> 0\<close> show False by (simp add: zero_hash_def hd_replicate)
qed

lemma all_less_Suc_split: "(\<forall>j<Suc n. P j) \<longleftrightarrow> P 0 \<and> (\<forall>j<n. P (Suc j))"
  by (auto simp: less_Suc_eq_0_disj)

lemma B2Block_Validate_loop_None_iff:
  "B2Block_Validate_loop i mts phts = None \<longleftrightarrow>
     (\<forall>j<length mts. \<exists>mt pht. mts ! j = Some mt \<and> index phts (int (i + j)) = Inr (Some pht) \<and>
         MTTransaction_Hash mt \<noteq> zero_hash \<and> mt_PHTHash mt = PHTTransaction_Hash pht)"
proof (induction mts arbitrary: i)
  case Nil
  then show ?case by simp
next
  case (Cons m mts)
  show ?case
    by (simp add: Cons.IH all_less_Suc_split split: option.splits sum.splits)
       (auto simp: ac_simps)
qed

lemma B2Block_Validate_None_iff:
  "B2Block_Validate now b b1 = None \<longleftrightarrow>
     b2_Header b \<noteq> None \<and> b2_BlockType b = 2 \<and> b2_B1BlockHash b = b1_BlockHash b1 \<and>
     b2_MTs b \<noteq> [] \<and> length (b2_MTs b) = length (b1_PHTs b1) \<and>
     B2Block_Validate_loop 0 (b2_MTs b) (b1_PHTs b1) = None \<and>
     b2_Timestamp b \<noteq> 0 \<and> \<not> b2_Timestamp b > now + 60 \<and> b1_Timestamp b1 < b2_Timestamp b"
  by (auto simp: B2Block_Validate_def split: option.splits)

lemma B2Block_Validate_pairs:
  assumes "B2Block_Validate now b b1 = None" and "i < length (b2_MTs b)"
  shows "\<exists>mt pht. b2_MTs b ! i = Some mt \<and> b1_PHTs b1 ! i = Some pht \<and>
                  MTTransaction_Hash mt \<noteq> zero_hash \<and> mt_PHTHash mt = PHTTransaction_Hash pht"
proof -
  from assms(1) have len: "length (b2_MTs b) = length (b1_PHTs b1)"
    and loop: "B2Block_Validate_loop 0 (b2_MTs b) (b1_PHTs b1) = None"
    by (simp_all add: B2Block_Validate_None_iff)
  from loop assms(2) obtain mt pht where
    "b2_MTs b ! i = Some mt" "index (b1_PHTs b1) (int (0 + i)) = Inr (Some pht)"
    "MTTransaction_Hash mt \<noteq> zero_hash" "mt_PHTHash mt = PHTTransaction_Hash pht"
    unfolding B2Block_Validate_loop_None_iff by blast
  moreover from this(2) assms(2) len have "b1_PHTs b1 ! i = Some pht"
    by (simp add: index_def split: if_splits)
  ultimately show ?thesis by blast
qed

lemma example_b2_valid: "B2Block_Validate 1700000006 example_b2 example_b1 = None"
  by (simp add: B2Block_Validate_def example_b2_def example_b1_def index_def
      example_mt1_hash example_mt2_hash example_pht1_hash example_pht2_hash
      nonzero_head_not_zero_hash)
     (simp add: example_mt1_def example_mt2_def)

text \<open>
  Claim C6: a B2 block whose timestamp is not after the timestamp of the B1 block is
  rejected by \<open>Validate\<close>; read the other way round, \<open>Validate\<close> accepts only when the
  timestamp of the B2 block strictly exceeds that of its parent.  The timestamps are
  \<open>uint64\<close> and compared as unsigned.
\<close>

theorem B2Block_Validate_rejects_timestamp_not_after_parent:
  "b2_Timestamp b \<le> b1_Timestamp b1 \<Longrightarrow> B2Block_Validate now b b1 \<noteq> None"
  by (auto simp: B2Block_Validate_None_iff)

theorem B2Block_Validate_rejects_timestamp_not_after_parent_witness:
  "b2_Timestamp (example_b2\<lparr>b2_Timestamp := 1700000000\<rparr>) \<le> b1_Timestamp example_b1 \<and>
   B2Block_Validate 1700000006 (example_b2\<lparr>b2_Timestamp := 1700000000\<rparr>) example_b1
     = Some B2TimestampNotAfterB1"
proof -
  have le: "b2_Timestamp (example_b2\<lparr>b2_Timestamp := 1700000000\<rparr>) \<le> b1_Timestamp example_b1"
    by (simp add: example_b1_def)
  from B2Block_Validate_rejects_timestamp_not_after_parent [OF le]
  have "B2Block_Validate 1700000006 (example_b2\<lparr>b2_Timestamp := 1700000000\<rparr>) example_b1 \<noteq> None" .
  moreover have "B2Block_Validate 1700000006 (example_b2\<lparr>b2_Timestamp := 1700000000\<rparr>) example_b1
      \<in> {None, Some B2TimestampNotAfterB1}"
    using example_b2_valid
    by (auto simp: B2Block_Validate_def example_b2_def example_b1_def
        split: option.splits if_splits)
  ultimately show ?thesis using le by auto
qed

text \<open>
  Claim C5: \<open>Validate\<close> returns no error only if the B2 block has as many MTs as its
  parent has PHTs and the MT at every position carries the hash of the PHT at the same
  position; so, for a valid pair whose PHTs have pairwise distinct hashes, the B2 block
  whose MTs are rearranged by a permutation of the positions that moves some position is
  rejected.
\<close>

theorem B2Block_Validate_positional_pairing:
  assumes ok: "B2Block_Validate now b b1 = None"
  shows "length (b2_MTs b) = length (b1_PHTs b1) \<and>
         (\<forall>i<length (b2_MTs b). \<exists>mt pht.
             b2_MTs b ! i = Some mt \<and> b1_PHTs b1 ! i = Some pht \<and>
             mt_PHTHash mt = PHTTransaction_Hash pht) \<and>
         (\<forall>\<pi>. distinct (map (map_option PHTTransaction_Hash) (b1_PHTs b1)) \<and>
              bij_betw \<pi> {..<length (b2_MTs b)} {..<length (b2_MTs b)} \<and>
              (\<exists>i<length (b2_MTs b). \<pi> i \<noteq> i) \<longrightarrow>
              B2Block_Validate now
                (b\<lparr>b2_MTs := map (\<lambda>i. b2_MTs b ! \<pi> i) [0..<length (b2_MTs b)]\<rparr>) b1 \<noteq> None)"
proof (intro conjI)
  from ok show len: "length (b2_MTs b) = length (b1_PHTs b1)"
    by (simp add: B2Block_Validate_None_iff)
  show "\<forall>i<length (b2_MTs b). \<exists>mt pht.
             b2_MTs b ! i = Some mt \<and> b1_PHTs b1 ! i = Some pht \<and>
             mt_PHTHash mt = PHTTransaction_Hash pht"
    using B2Block_Validate_pairs [OF ok] by blast
  show "\<forall>\<pi>. distinct (map (map_option PHTTransaction_Hash) (b1_PHTs b1)) \<and>
              bij_betw \<pi> {..<length (b2_MTs b)} {..<length (b2_MTs b)} \<and>
              (\<exists>i<length (b2_MTs b). \<pi> i \<noteq> i) \<longrightarrow>
              B2Block_Validate now
                (b\<lparr>b2_MTs := map (\<lambda>i. b2_MTs b ! \<pi> i) [0..<length (b2_MTs b)]\<rparr>) b1 \<noteq> None"
  proof (intro allI impI)
    fix \<pi>
    assume prem: "distinct (map (map_option PHTTransaction_Hash) (b1_PHTs b1)) \<and>
                bij_betw \<pi> {..<length (b2_MTs b)} {..<length (b2_MTs b)} \<and>
                (\<exists>i<length (b2_MTs b). \<pi> i \<noteq> i)"
    let ?n = "length (b2_MTs b)"
    let ?b' = "b\<lparr>b2_MTs := map (\<lambda>i. b2_MTs b ! \<pi> i) [0..<?n]\<rparr>"
    from prem obtain i where i: "i < ?n" "\<pi> i \<noteq> i" by blast
    from prem i(1) have pi: "\<pi> i < ?n" by (auto simp: bij_betw_def)
    from B2Block_Validate_pairs [OF ok pi] obtain mt pht where
      mt: "b2_MTs b ! \<pi> i = Some mt" "b1_PHTs b1 ! \<pi> i = Some pht"
          "mt_PHTHash mt = PHTTransaction_Hash pht" by blast
    from prem have "distinct (map (map_option PHTTransaction_Hash) (b1_PHTs b1))" by simp
    with i pi len have ne: "map_option PHTTransaction_Hash (b1_PHTs b1 ! \<pi> i)
                          \<noteq> map_option PHTTransaction_Hash (b1_PHTs b1 ! i)"
      by (auto simp: distinct_conv_nth)
    show "B2Block_Validate now ?b' b1 \<noteq> None"
    proof
      assume ok': "B2Block_Validate now ?b' b1 = None"
      have i': "i < length (b2_MTs ?b')" using i(1) by simp
      from B2Block_Validate_pairs [OF ok' i'] obtain mt' pht' where
        "b2_MTs ?b' ! i = Some mt'" "b1_PHTs b1 ! i = Some pht'"
        "mt_PHTHash mt' = PHTTransaction_Hash pht'" by blast
      with i(1) mt have "PHTTransaction_Hash pht = PHTTransaction_Hash pht'" by simp
      with ne mt(2) \<open>b1_PHTs b1 ! i = Some pht'\<close> show False by simp
    qed
  qed
qed

theorem B2Block_Validate_positional_pairing_witness:
  "B2Block_Validate 1700000006 example_b2 example_b1 = None \<and>
   distinct (map (map_option PHTTransaction_Hash) (b1_PHTs example_b1)) \<and>
   bij_betw (\<lambda>i. 1 - i) {..<length (b2_MTs example_b2)} {..<length (b2_MTs example_b2)} \<and>
   (\<exists>i<length (b2_MTs example_b2). 1 - i \<noteq> i) \<and>
   length (b2_MTs example_b2) = length (b1_PHTs example_b1) \<and>
   B2Block_Validate 1700000006 (example_b2\<lparr>b2_MTs := [Some example_mt2, Some example_mt1]\<rparr>)
       example_b1 \<noteq> None"
proof -
  have dist: "distinct (map (map_option PHTTransaction_Hash) (b1_PHTs example_b1))"
    by (simp add: example_b1_def example_pht1_hash example_pht2_hash)
  have bij: "bij_betw (\<lambda>i. 1 - i) {..<length (b2_MTs example_b2)} {..<length (b2_MTs example_b2)}"
    by (auto simp: example_b2_def bij_betw_def inj_on_def lessThan_Suc)
  have moved: "\<exists>i<length (b2_MTs example_b2). 1 - i \<noteq> i"
    by (auto simp: example_b2_def intro: exI [of _ 0])
  note inst = B2Block_Validate_positional_pairing [OF example_b2_valid]
  from inst have len: "length (b2_MTs example_b2) = length (b1_PHTs example_b1)"
    by (rule conjunct1)
  from inst have "distinct (map (map_option PHTTransaction_Hash) (b1_PHTs example_b1)) \<and>
      bij_betw (\<lambda>i. 1 - i) {..<length (b2_MTs example_b2)} {..<length (b2_MTs example_b2)} \<and>
      (\<exists>i<length (b2_MTs example_b2). 1 - i \<noteq> i) \<longrightarrow>
      B2Block_Validate 1700000006
        (example_b2\<lparr>b2_MTs :=
           map (\<lambda>i. b2_MTs example_b2 ! (1 - i)) [0..<length (b2_MTs example_b2)]\<rparr>)
        example_b1 \<noteq> None"
    by (rule conjunct2 [THEN conjunct2, THEN spec])
  with dist bij moved have "B2Block_Validate 1700000006
        (example_b2\<lparr>b2_MTs :=
           map (\<lambda>i. b2_MTs example_b2 ! (1 - i)) [0..<length (b2_MTs example_b2)]\<rparr>)
        example_b1 \<noteq> None"
    by blast
  moreover have "map (\<lambda>i. b2_MTs example_b2 ! (1 - i)) [0..<length (b2_MTs example_b2)]
                 = [Some example_mt2, Some example_mt1]"
    by (simp add: example_b2_def upt_rec)
  ultimately have "B2Block_Validate 1700000006
      (example_b2\<lparr>b2_MTs := [Some example_mt2, Some example_mt1]\<rparr>) example_b1 \<noteq> None"
    by simp
  with example_b2_valid dist bij moved len show ?thesis
    by blast
qed

section \<open>Properties of the validation by the engine\<close>


lemma CreateMT_never_succeeds: "CreateMT now spare phtp \<noteq> Inr mt"
  by (auto simp: CreateMT_def Prove_two_or_more hiddenData_def split: option.splits)

lemma convertPHTsToMTs_loop_nonempty:
  "phts \<noteq> [] \<Longrightarrow> convertPHTsToMTs_loop env k phts mts \<noteq> Inr mts'"
  by (cases phts) (auto simp: CreateMT_never_succeeds split: sum.splits)

lemma finalizeB2Block_never_succeeds: "fst (finalizeB2Block env header p) \<noteq> None"
proof (cases "GetB1Block (hdr_ParentHash header) (p2s_cache p)")
  case None
  then show ?thesis by (simp add: finalizeB2Block_def)
next
  case (Some b1Block)
  show ?thesis
  proof (cases "b1_PHTs b1Block = []")
    case True
    with Some show ?thesis
      by (simp add: finalizeB2Block_def convertPHTsToMTs_def B2Block_Validate_def Let_def
          split: option.splits)
  next
    case False
    from convertPHTsToMTs_loop_nonempty [OF False]
    have "\<exists>e. convertPHTsToMTs env (b1_PHTs b1Block) = Inl e"
      by (cases "convertPHTsToMTs env (b1_PHTs b1Block)") (auto simp: convertPHTsToMTs_def)
    with Some show ?thesis
      by (auto simp: finalizeB2Block_def)
  qed
qed







section \<open>Properties of the cache\<close>

lemma map_delete_absent: "h \<notin> fst ` set m \<Longrightarrow> map_delete h m = m"
  by (induction m) (auto simp: map_delete_def)

lemma length_map_delete:
  "distinct (map fst m) \<Longrightarrow> (h, x) \<in> set m \<Longrightarrow> Suc (length (map_delete h m)) = length m"
proof (induction m)
  case Nil
  then show ?case by simp
next
  case (Cons e m)
  show ?case
  proof (cases "fst e = h")
    case True
    with Cons.prems(1) have "h \<notin> fst ` set m" by auto
    then have "map_delete h m = m" by (rule map_delete_absent)
    with True show ?thesis by (simp add: map_delete_def split_def)
  next
    case False
    with Cons.prems have "(h, x) \<in> set m" "distinct (map fst m)" by auto
    with Cons.IH False show ?thesis by (simp add: map_delete_def split_def)
  qed
qed

lemma map_store_absent: "h \<notin> fst ` set m \<Longrightarrow> map_store h v m = m @ [(h, v)]"
  by (induction m) auto

lemma evictOldest_scan_cases:
  "(evictOldest_scan ts m h0 t0 = h0 \<and> (\<forall>e \<in> set m. \<not> ts (snd e) < t0)) \<or>
   (\<exists>x. (evictOldest_scan ts m h0 t0, x) \<in> set m \<and> ts x < t0 \<and>
        (\<forall>e \<in> set m. ts x \<le> ts (snd e)))"
proof (induction m arbitrary: h0 t0)
  case Nil
  then show ?case by simp
next
  case (Cons e m)
  obtain h x where e: "e = (h, x)" by (cases e)
  show ?case
  proof (cases "ts x < t0")
    case True
    then have step: "evictOldest_scan ts (e # m) h0 t0 = evictOldest_scan ts m h (ts x)"
      by (simp add: e)
    from Cons.IH [of h "ts x"] show ?thesis
    proof
      assume "evictOldest_scan ts m h (ts x) = h \<and> (\<forall>e \<in> set m. \<not> ts (snd e) < ts x)"
      then have "(evictOldest_scan ts (e # m) h0 t0, x) \<in> set (e # m)"
        and "\<forall>e' \<in> set (e # m). ts x \<le> ts (snd e')"
        using step e by (auto simp: not_less)
      with True show ?thesis by blast
    next
      assume "\<exists>x'. (evictOldest_scan ts m h (ts x), x') \<in> set m \<and> ts x' < ts x \<and>
                   (\<forall>e \<in> set m. ts x' \<le> ts (snd e))"
      then obtain x' where x': "(evictOldest_scan ts m h (ts x), x') \<in> set m"
        "ts x' < ts x" "\<forall>e \<in> set m. ts x' \<le> ts (snd e)" by blast
      from x'(1) step have "(evictOldest_scan ts (e # m) h0 t0, x') \<in> set (e # m)" by simp
      moreover from x'(2) True have "ts x' < t0" by simp
      moreover from x'(2,3) e have "\<forall>e' \<in> set (e # m). ts x' \<le> ts (snd e')" by auto
      ultimately show ?thesis by blast
    qed
  next
    case False
    then have step: "evictOldest_scan ts (e # m) h0 t0 = evictOldest_scan ts m h0 t0"
      by (simp add: e)
    from Cons.IH [of h0 t0] show ?thesis
    proof
      assume "evictOldest_scan ts m h0 t0 = h0 \<and> (\<forall>e \<in> set m. \<not> ts (snd e) < t0)"
      with False step e have "evictOldest_scan ts (e # m) h0 t0 = h0 \<and>
          (\<forall>e' \<in> set (e # m). \<not> ts (snd e') < t0)" by simp
      then show ?thesis by blast
    next
      assume "\<exists>x'. (evictOldest_scan ts m h0 t0, x') \<in> set m \<and> ts x' < t0 \<and>
                   (\<forall>e \<in> set m. ts x' \<le> ts (snd e))"
      then obtain x' where x': "(evictOldest_scan ts m h0 t0, x') \<in> set m"
        "ts x' < t0" "\<forall>e \<in> set m. ts x' \<le> ts (snd e)" by blast
      from x'(1) step have "(evictOldest_scan ts (e # m) h0 t0, x') \<in> set (e # m)" by simp
      moreover from x'(2,3) False e have "\<forall>e' \<in> set (e # m). ts x' \<le> ts (snd e')" by auto
      ultimately show ?thesis using x'(2) by blast
    qed
  qed
qed

lemma SetPHT_evicts_oldest:
  assumes dist: "distinct (map fst (phtCache c))"
    and full: "int (length (phtCache c)) \<ge> maxSize c"
    and early: "\<exists>e \<in> set (phtCache c). pht_Timestamp (snd e) \<noteq> - 1"
    and new: "h \<notin> fst ` set (phtCache c)"
  shows "\<exists>k x. (k, x) \<in> set (phtCache c) \<and>
               (\<forall>e \<in> set (phtCache c). pht_Timestamp x \<le> pht_Timestamp (snd e)) \<and>
               phtCache (SetPHT h pht c) = map_delete k (phtCache c) @ [(h, pht)] \<and>
               length (phtCache (SetPHT h pht c)) = length (phtCache c)"
proof -
  let ?k = "evictOldest_scan pht_Timestamp (phtCache c) zero_hash (- 1)"
  from early obtain e where "e \<in> set (phtCache c)" "pht_Timestamp (snd e) < - 1"
    by (auto simp: word_order.not_eq_extremum)
  then have "\<not> (\<forall>e \<in> set (phtCache c). \<not> pht_Timestamp (snd e) < - 1)"
    by blast
  with evictOldest_scan_cases [of pht_Timestamp "phtCache c" zero_hash "- 1"]
  obtain x where x: "(?k, x) \<in> set (phtCache c)"
    and least: "\<forall>e \<in> set (phtCache c). pht_Timestamp x \<le> pht_Timestamp (snd e)"
    by blast
  from new have "h \<notin> fst ` set (map_delete ?k (phtCache c))"
    by (auto simp: map_delete_def)
  then have store: "map_store h pht (map_delete ?k (phtCache c)) = map_delete ?k (phtCache c) @ [(h, pht)]"
    by (rule map_store_absent)
  from full have eq: "phtCache (SetPHT h pht c) = map_delete ?k (phtCache c) @ [(h, pht)]"
    by (simp add: SetPHT_def evictOldestPHT_def store)
  moreover from length_map_delete [OF dist x] eq
  have "length (phtCache (SetPHT h pht c)) = length (phtCache c)" by simp
  ultimately show ?thesis using x least by blast
qed

text \<open>
  The example of the specification: with room for two entries, inserting transactions
  with the timestamps 10, 20 and 30 leaves those with 20 and 30.
\<close>

lemma SetPHT_capacity_two_example:
  "phtCache (SetPHT_all
      [(example_key 1, example_pht1\<lparr>pht_Timestamp := 10\<rparr>),
       (example_key 2, example_pht1\<lparr>pht_Timestamp := 20\<rparr>),
       (example_key 3, example_pht1\<lparr>pht_Timestamp := 30\<rparr>)]
      (NewP2SCache\<lparr>maxSize := 2\<rparr>)) =
     [(example_key 2, example_pht1\<lparr>pht_Timestamp := 20\<rparr>),
      (example_key 3, example_pht1\<lparr>pht_Timestamp := 30\<rparr>)]"
  by (simp add: SetPHT_def evictOldestPHT_def NewP2SCache_def example_key_def map_delete_def Let_def)

text \<open>
  The scan starts from the largest \<open>uint64\<close> and the zero hash, and replaces them only
  by a strictly smaller timestamp.  When every cached timestamp is the largest \<open>uint64\<close>
  it ends with the zero hash, and deleting that key removes nothing unless it is a key of
  the cache.
\<close>

lemma evictOldest_scan_none_older:
  "\<forall>e \<in> set m. \<not> ts (snd e) < t \<Longrightarrow> evictOldest_scan ts m h0 t = h0"
  by (induction m arbitrary: h0 t) auto

lemma evictOldestPHT_all_latest:
  assumes "\<forall>e \<in> set (phtCache c). pht_Timestamp (snd e) = - 1"
    and "zero_hash \<notin> fst ` set (phtCache c)"
  shows "evictOldestPHT c = c"
proof -
  from assms(1) have "\<forall>e \<in> set (phtCache c). \<not> pht_Timestamp (snd e) < - 1"
    by auto
  then have "evictOldest_scan pht_Timestamp (phtCache c) zero_hash (- 1) = zero_hash"
    by (rule evictOldest_scan_none_older)
  with assms(2) show ?thesis
    by (simp add: evictOldestPHT_def map_delete_absent)
qed

lemma SetPHT_all_latest:
  assumes "\<forall>e \<in> set (phtCache c). pht_Timestamp (snd e) = - 1"
    and "zero_hash \<notin> fst ` set (phtCache c)"
    and "h \<notin> fst ` set (phtCache c)"
  shows "SetPHT h pht c = c\<lparr>phtCache := phtCache c @ [(h, pht)]\<rparr>"
  using assms by (simp add: SetPHT_def Let_def evictOldestPHT_all_latest map_store_absent)

lemma SetPHT_all_append:
  assumes "\<forall>e \<in> set (phtCache c) \<union> set es. pht_Timestamp (snd e) = - 1"
    and "zero_hash \<notin> fst ` (set (phtCache c) \<union> set es)"
    and "distinct (map fst es)"
    and "fst ` set es \<inter> fst ` set (phtCache c) = {}"
  shows "SetPHT_all es c = c\<lparr>phtCache := phtCache c @ es\<rparr>"
  using assms
proof (induction es arbitrary: c)
  case Nil
  then show ?case by simp
next
  case (Cons e es)
  obtain h pht where e: "e = (h, pht)" by (cases e)
  from Cons.prems e have step: "SetPHT h pht c = c\<lparr>phtCache := phtCache c @ [(h, pht)]\<rparr>"
    by (intro SetPHT_all_latest) auto
  have "SetPHT_all es (c\<lparr>phtCache := phtCache c @ [(h, pht)]\<rparr>)
        = (c\<lparr>phtCache := phtCache c @ [(h, pht)]\<rparr>)
            \<lparr>phtCache := phtCache (c\<lparr>phtCache := phtCache c @ [(h, pht)]\<rparr>) @ es\<rparr>"
    using Cons.prems e by (intro Cons.IH) (auto simp: image_Un)
  with step e show ?case by simp
qed

lemma example_key_inj: "i < 1001 \<Longrightarrow> j < 1001 \<Longrightarrow> example_key i = example_key j \<Longrightarrow> i = j"
proof -
  assume i: "i < 1001" and j: "j < 1001" and eq: "example_key i = example_key j"
  from eq have hi: "(word_of_nat (i div 256) :: byte) = word_of_nat (j div 256)"
    and lo: "(word_of_nat (i mod 256) :: byte) = word_of_nat (j mod 256)"
    by (simp_all add: example_key_def)
  from hi have "unat (word_of_nat (i div 256) :: byte) = unat (word_of_nat (j div 256) :: byte)"
    by simp
  moreover have "i div 256 < 256" "j div 256 < 256" using i j by auto
  ultimately have d: "i div 256 = j div 256" by (simp add: unat_of_nat)
  from lo have "unat (word_of_nat (i mod 256) :: byte) = unat (word_of_nat (j mod 256) :: byte)"
    by simp
  then have m: "i mod 256 = j mod 256" by (simp add: unat_of_nat)
  from d m show "i = j" by (metis div_mult_mod_eq)
qed

lemma example_key_nonzero: "i < 1001 \<Longrightarrow> example_key i \<noteq> zero_hash"
proof
  assume i: "i < 1001" and eq: "example_key i = zero_hash"
  from eq have "hd (example_key i) = hd zero_hash" by simp
  then have "(1 + word_of_nat (i div 256) :: byte) = 0"
    by (simp add: example_key_def zero_hash_def hd_replicate)
  then have "unat (1 + word_of_nat (i div 256) :: byte) = 0" by simp
  moreover have "i div 256 < 4" using i by auto
  ultimately show False
    by (simp add: unat_word_ariths unat_of_nat)
qed

lemma SetPHT_all_example:
  assumes "n \<le> 1001"
  shows "SetPHT_all (example_entries n) NewP2SCache = NewP2SCache\<lparr>phtCache := example_entries n\<rparr>"
proof -
  have late: "\<forall>e \<in> set (phtCache NewP2SCache) \<union> set (example_entries n).
                pht_Timestamp (snd e) = - 1"
    by (auto simp: NewP2SCache_def example_late_pht_def example_entries_def)
  have nz: "zero_hash \<notin> fst ` (set (phtCache NewP2SCache) \<union> set (example_entries n))"
  proof
    assume "zero_hash \<in> fst ` (set (phtCache NewP2SCache) \<union> set (example_entries n))"
    then obtain i where "i < n" "example_key i = zero_hash"
      by (auto simp: NewP2SCache_def example_entries_def)
    with assms example_key_nonzero [of i] show False by simp
  qed
  have "inj_on example_key {0..<n}"
    using example_key_inj assms by (intro inj_onI) auto
  then have dist: "distinct (map fst (example_entries n))"
    by (simp add: distinct_map comp_def example_entries_def)
  have disj: "fst ` set (example_entries n) \<inter> fst ` set (phtCache NewP2SCache) = {}"
    by (simp add: NewP2SCache_def)
  from SetPHT_all_append [OF late nz dist disj]
  show ?thesis by (simp add: NewP2SCache_def)
qed

text \<open>
  Claim C8 asks that an insertion into a full cache evicts the entry with the oldest
  timestamp and that the cache never holds more than \<open>maxSize\<close> entries after a
  \<open>SetPHT\<close>.  Starting from \<open>NewP2SCache\<close>, whose \<open>maxSize\<close> is 1000, 1000 calls of
  \<open>SetPHT\<close> with distinct non-zero keys and transactions whose timestamp is the largest
  \<open>uint64\<close> fill the cache; one more such call finds the cache full, evicts nothing,
  and leaves 1001 entries.
\<close>

theorem SetPHT_exceeds_maxSize_on_latest_timestamps:
  "length (phtCache (SetPHT_all (example_entries 1000) NewP2SCache)) = 1000 \<and>
   length (phtCache (SetPHT (example_key 1000) example_late_pht
                       (SetPHT_all (example_entries 1000) NewP2SCache))) = 1001 \<and>
   maxSize (SetPHT (example_key 1000) example_late_pht
              (SetPHT_all (example_entries 1000) NewP2SCache)) = 1000"
proof -
  have full: "SetPHT_all (example_entries 1000) NewP2SCache
                = NewP2SCache\<lparr>phtCache := example_entries 1000\<rparr>"
    by (rule SetPHT_all_example) simp
  have "SetPHT_all (example_entries 1001) NewP2SCache
          = NewP2SCache\<lparr>phtCache := example_entries 1001\<rparr>"
    by (rule SetPHT_all_example) simp
  moreover have "example_entries 1001 = example_entries 1000 @ [(example_key 1000, example_late_pht)]"
  proof -
    have "[0..<1001] = [0..<1000] @ [1000]"
      using upt_Suc_append [of 0 1000] by simp
    then show ?thesis by (simp add: example_entries_def)
  qed
  moreover have "SetPHT_all (example_entries 1000 @ [(example_key 1000, example_late_pht)]) NewP2SCache
      = SetPHT (example_key 1000) example_late_pht (SetPHT_all (example_entries 1000) NewP2SCache)"
    for c
  proof -
    have "SetPHT_all (es @ [(h, x)]) c = SetPHT h x (SetPHT_all es c)" for es h x c
      by (induction es arbitrary: c) auto
    then show ?thesis .
  qed
  ultimately have last: "SetPHT (example_key 1000) example_late_pht
        (SetPHT_all (example_entries 1000) NewP2SCache)
      = NewP2SCache\<lparr>phtCache := example_entries 1001\<rparr>"
    by simp
  have "length (phtCache (SetPHT_all (example_entries 1000) NewP2SCache)) = 1000"
    by (simp only: full) (simp add: example_entries_def)
  moreover have "length (phtCache (SetPHT (example_key 1000) example_late_pht
                       (SetPHT_all (example_entries 1000) NewP2SCache))) = 1001"
    by (simp only: last) (simp add: example_entries_def)
  moreover have "maxSize (SetPHT (example_key 1000) example_late_pht
              (SetPHT_all (example_entries 1000) NewP2SCache)) = 1000"
    by (simp only: last) (simp add: NewP2SCache_def)
  ultimately show ?thesis
    by (intro conjI)
qed

end
